theory Spec2Isabelle
  imports Main "HOL-Library.Char_ord" "HOL-Library.List_Lexorder"
begin

section \<open>The docgen compiler driver (packages/docgen/src/compiler.ts)\<close>

text \<open>
  The driver loads the TypeScript compiler options by following the \<open>extends\<close> chain of
  tsconfig files, creates a program, asks the type locator for the exported API
  references, builds one document per reference, sorts the documents, and writes one
  markdown file per document plus an mkdocs manifest.

  The collaborators imported from other modules (the module loader \<open>require\<close>, the
  TypeScript compiler, \<open>TypeLocator\<close>, \<open>ApiDocGenerator\<close>, \<open>ApiDocPrinter\<close>,
  \<open>sortSelector\<close> and the file system) are fields of an environment record; a call that
  can throw returns a sum whose left injection is the thrown value. What the driver does
  to the outside world is recorded as a list of events, in the order of the calls.

  A JavaScript string is a list of characters, a path is a POSIX path, and a function
  that does not return has the value \<open>None\<close>.
\<close>

subsection \<open>Values\<close>

text \<open>
  A JSON value of a configuration file. The driver looks inside no value: it only
  copies them, so numbers are integers here and a nested object is the list of its
  key/value pairs. The option set itself is a JavaScript object, a finite map from
  property names to values.
\<close>

datatype json =
    JNull
  | JBool bool
  | JNum int
  | JStr string
  | JArr "json list"
  | JObj "(string \<times> json) list"

type_synonym options = "string \<rightharpoonup> json"

text \<open>
  The part of a tsconfig file the driver reads: \<open>config.extends\<close> and
  \<open>config.compilerOptions\<close>; \<open>None\<close> is JavaScript's \<open>undefined\<close>.
\<close>

record config =
  extends :: "string option"
  compilerOptions :: "options option"

text \<open>
  A thrown value is an Error object, which is what the collaborators throw; the driver
  reads its \<open>stack\<close> property. (For a thrown value that is no object with a
  \<open>stack\<close> the template literal of line 78 would print the word \<open>undefined\<close>.)
\<close>

datatype thrown = Thrown (message: string) (stack: string)

subsection \<open>Node's POSIX path functions\<close>

text \<open>
  \<open>path.join\<close>, \<open>path.dirname\<close> and \<open>path.resolve\<close> of Node's \<open>path.posix\<close>,
  read at the level of path segments. \<open>normalizeString\<close> drops empty and \<open>.\<close>
  segments and lets \<open>..\<close> remove the segment before it; above the start of a relative
  path \<open>..\<close> is kept when \<open>allowAboveRoot\<close> holds.
\<close>

fun splitOn :: "char \<Rightarrow> string \<Rightarrow> string list" where
  "splitOn sep [] = [[]]"
| "splitOn sep (c # cs) =
     (if c = sep then [] # splitOn sep cs
      else (case splitOn sep cs of [] \<Rightarrow> [[c]] | s # ss \<Rightarrow> (c # s) # ss))"

fun joinWith :: "string \<Rightarrow> string list \<Rightarrow> string" where
  "joinWith sep [] = []"
| "joinWith sep [s] = s"
| "joinWith sep (s # t # ss) = s @ sep @ joinWith sep (t # ss)"

definition normalizeStep :: "bool \<Rightarrow> string list \<Rightarrow> string \<Rightarrow> string list" where
  "normalizeStep allowAboveRoot res seg =
     (if seg = [] \<or> seg = ''.'' then res
      else if seg = ''..'' then
        (if res \<noteq> [] \<and> last res \<noteq> ''..'' then butlast res
         else if allowAboveRoot then res @ [''..''] else res)
      else res @ [seg])"

definition normalizeString :: "string \<Rightarrow> bool \<Rightarrow> string" where
  "normalizeString path allowAboveRoot =
     joinWith ''/'' (foldl (normalizeStep allowAboveRoot) [] (splitOn CHR ''/'' path))"

definition isAbsolute :: "string \<Rightarrow> bool" where
  "isAbsolute path = (case path of [] \<Rightarrow> False | c # _ \<Rightarrow> c = CHR ''/'')"

definition normalize :: "string \<Rightarrow> string" where
  "normalize path =
     (if path = [] then ''.''
      else
        let trailingSeparator = (last path = CHR ''/'');
            p = normalizeString path (\<not> isAbsolute path)
        in if p = [] then
             (if isAbsolute path then ''/'' else if trailingSeparator then ''./'' else ''.'')
           else
             (let p' = (if trailingSeparator then p @ ''/'' else p)
              in if isAbsolute path then ''/'' @ p' else p'))"

definition join :: "string list \<Rightarrow> string" where
  "join args =
     (let joined = joinWith ''/'' (filter (\<lambda>a. a \<noteq> []) args)
      in if joined = [] then ''.'' else normalize joined)"

text \<open>
  \<open>path.dirname\<close>: the path up to the last separator that is followed by a
  non-separator character, looking from the end and never at index 0.
\<close>

fun dirnameEnd :: "string \<Rightarrow> nat \<Rightarrow> bool \<Rightarrow> nat option" where
  "dirnameEnd path 0 matchedSlash = None"
| "dirnameEnd path (Suc i) matchedSlash =
     (if path ! Suc i = CHR ''/'' then
        (if \<not> matchedSlash then Some (Suc i) else dirnameEnd path i matchedSlash)
      else dirnameEnd path i False)"

definition dirname :: "string \<Rightarrow> string" where
  "dirname path =
     (if path = [] then ''.''
      else
        (case dirnameEnd path (length path - 1) True of
           None \<Rightarrow> (if isAbsolute path then ''/'' else ''.'')
         | Some e \<Rightarrow> (if isAbsolute path \<and> e = 1 then ''//'' else take e path)))"

text \<open>
  \<open>path.resolve\<close>: the arguments are taken from the right up to the first absolute
  one; the working directory \<open>cwd\<close> is used when none is absolute.
\<close>

fun resolveParts :: "string list \<Rightarrow> string \<Rightarrow> string" where
  "resolveParts [] resolvedPath = resolvedPath"
| "resolveParts (p # ps) resolvedPath =
     (if resolvedPath \<noteq> [] \<and> isAbsolute resolvedPath then resolvedPath
      else if p = [] then resolveParts ps resolvedPath
      else resolveParts ps (p @ ''/'' @ resolvedPath))"

definition resolve :: "string \<Rightarrow> string list \<Rightarrow> string" where
  "resolve cwd args =
     (let resolvedPath = resolveParts (rev (cwd # args)) [];
          resolvedAbsolute = isAbsolute resolvedPath;
          p = normalizeString resolvedPath (\<not> resolvedAbsolute)
      in if resolvedAbsolute then ''/'' @ p
         else if p \<noteq> [] then p else ''.'')"

subsection \<open>Objects: spread, delete, assignment\<close>

text \<open>
  \<open>{...a, ...b}\<close> copies the properties of \<open>a\<close> and then those of \<open>b\<close> into a new
  object, \<open>spread (spread Map.empty a) b\<close>: a key that is already there takes the new
  value. Spreading \<open>undefined\<close> copies nothing.
\<close>

definition spread :: "options \<Rightarrow> options option \<Rightarrow> options" where
  "spread target src =
     (case src of
        None \<Rightarrow> target
      | Some props \<Rightarrow> target ++ props)"

definition deleteProp :: "string \<Rightarrow> options \<Rightarrow> options" where
  "deleteProp k obj = obj(k := None)"

definition assignProp :: "string \<Rightarrow> json \<Rightarrow> options \<Rightarrow> options" where
  "assignProp k v obj = obj(k \<mapsto> v)"

subsection \<open>The collaborators\<close>

record 'a api_instance =
  source_fileName :: string
  instance_content :: 'a

record 'd api_doc =
  doc_id :: string
  doc_name :: string
  doc_content :: 'd

record ('p, 't, 'a, 'd) env =
  moduleDirname :: string
  cwd :: string
  stackFrames :: string
  require :: "string \<Rightarrow> thrown + config"
  chdir :: "string \<Rightarrow> thrown option"
  createProgram :: "string list \<Rightarrow> options \<Rightarrow> 'p"
  getExportedType :: "'p \<Rightarrow> string \<Rightarrow> string \<Rightarrow> thrown + 't"
  findExportedInstances :: "'p \<Rightarrow> 't \<Rightarrow> string list \<Rightarrow> thrown + 'a api_instance list"
  toDoc :: "'p \<Rightarrow> string \<Rightarrow> string \<Rightarrow> 'a api_instance \<Rightarrow> thrown + 'd api_doc"
  sortSelector :: "('d api_doc \<Rightarrow> string) \<Rightarrow> 'd api_doc \<Rightarrow> 'd api_doc \<Rightarrow> int"
  print :: "'d api_doc \<Rightarrow> thrown + string"
  ensureDirSync :: "string \<Rightarrow> thrown option"
  writeFile :: "string \<Rightarrow> string \<Rightarrow> thrown option"
  writeFileSync :: "string \<Rightarrow> string \<Rightarrow> thrown option"

text \<open>
  \<open>moduleDirname\<close> is \<open>__dirname\<close>, \<open>cwd\<close> the working directory at start. A file
  system call returns \<open>Some e\<close> when it throws (or its promise rejects with) \<open>e\<close>.
  \<open>toDoc env program rootDir srcDir\<close> is the \<open>toDoc\<close> of the generator made by
  \<open>ApiDocGenerator.fromProgram(program, rootDir, srcDir)\<close>.

  V8 gives \<open>new Error(m)\<close> the stack \<open>Error: m\<close> followed by the call frames
  (\<open>stackFrames\<close>).
\<close>

definition newError :: "('p, 't, 'a, 'd) env \<Rightarrow> string \<Rightarrow> string \<Rightarrow> thrown" where
  "newError env name msg = Thrown msg (name @ '': '' @ msg @ stackFrames env)"

datatype logged = LogText string | LogValue thrown

datatype event =
    Chdir string
  | CreateProgram "string list" options
  | EnsureDirSync string
  | WriteFile string string
  | WriteFileSync string string
  | ConsoleError logged
  | Exit nat

subsection \<open>loadOptions\<close>

definition startsWith :: "string \<Rightarrow> string \<Rightarrow> bool" where
  "startsWith s p = (take (length p) s = p)"

text \<open>
  Lines 37 to 39: a parent that starts with a dot is taken relative to the directory of
  the file that names it.
\<close>

definition parentPath :: "string \<Rightarrow> string \<Rightarrow> string" where
  "parentPath path parent =
     (if startsWith parent ''.'' then join [dirname path, parent] else parent)"

text \<open>
  The recursion follows \<open>extends\<close> and has no other exit, so on a chain that never
  ends the function does not return: the value \<open>None\<close>. \<open>!parent\<close> holds for
  \<open>undefined\<close> and for the empty string.
\<close>

partial_function (option) loadOptions ::
  "('p, 't, 'a, 'd) env \<Rightarrow> string \<Rightarrow> (thrown + options option) option" where
  "loadOptions env path =
     (case require env path of
        Inl e \<Rightarrow> Some (Inl e)
      | Inr config \<Rightarrow>
          (case extends config of
             None \<Rightarrow> Some (Inr (compilerOptions config))
           | Some parent \<Rightarrow>
               if parent = [] then Some (Inr (compilerOptions config))
               else
                 Option.bind
                   (loadOptions env (parentPath path parent))
                   (\<lambda>loaded. case loaded of
                        Inl e \<Rightarrow> Some (Inl e)
                      | Inr parentOptions \<Rightarrow>
                          Some (Inr (Some (spread (spread Map.empty parentOptions)
                                             (compilerOptions config)))))))"

declare loadOptions.simps [code]

text \<open>
  The files \<open>loadOptions\<close> reads from \<open>path\<close> when the \<open>extends\<close> chain ends:
  every file of the chain loads, each names the next as its parent, and the last one
  names no parent.
\<close>

inductive extendsChain :: "('p, 't, 'a, 'd) env \<Rightarrow> string \<Rightarrow> string list \<Rightarrow> bool" where
  chainRoot:
    "require env path = Inr config \<Longrightarrow> extends config = None \<or> extends config = Some [] \<Longrightarrow>
     extendsChain env path [path]"
| chainStep:
    "require env path = Inr config \<Longrightarrow> extends config = Some parent \<Longrightarrow> parent \<noteq> [] \<Longrightarrow>
     extendsChain env (parentPath path parent) files \<Longrightarrow>
     extendsChain env path (path # files)"

code_pred extendsChain .

text \<open>Reading a property of a value that may be \<open>undefined\<close>.\<close>

definition getProp :: "options option \<Rightarrow> string \<Rightarrow> json option" where
  "getProp obj k = (case obj of None \<Rightarrow> None | Some props \<Rightarrow> props k)"

text \<open>
  What the specification calls the merged option set of a chain of configuration files,
  child first: the options of the last file, overridden in turn by those of each file
  before it. \<open>firstDefined\<close> reads one key: the value in the first file of the chain
  that has the key.
\<close>

fun mergeChain :: "('p, 't, 'a, 'd) env \<Rightarrow> string list \<Rightarrow> options option" where
  "mergeChain env [] = None"
| "mergeChain env [path] =
     (case require env path of Inl e \<Rightarrow> None | Inr config \<Rightarrow> compilerOptions config)"
| "mergeChain env (path # parent # files) =
     (case require env path of
        Inl e \<Rightarrow> None
      | Inr config \<Rightarrow>
          Some (spread (spread Map.empty (mergeChain env (parent # files)))
                  (compilerOptions config)))"

fun firstDefined :: "('p, 't, 'a, 'd) env \<Rightarrow> string list \<Rightarrow> string \<Rightarrow> json option" where
  "firstDefined env [] k = None"
| "firstDefined env (path # files) k =
     (case require env path of
        Inl e \<Rightarrow> None
      | Inr config \<Rightarrow>
          (case getProp (compilerOptions config) k of
             Some v \<Rightarrow> Some v
           | None \<Rightarrow> firstDefined env files k))"

subsection \<open>main\<close>

definition rootDir :: "('p, 't, 'a, 'd) env \<Rightarrow> string" where
  "rootDir env = resolve (cwd env) [moduleDirname env, ''..'']"

definition srcDir :: "('p, 't, 'a, 'd) env \<Rightarrow> string" where
  "srcDir env = resolve (cwd env) [rootDir env, ''..'', ''core-api'', ''src'']"

definition entrypoint :: "('p, 't, 'a, 'd) env \<Rightarrow> string" where
  "entrypoint env = resolve (cwd env) [srcDir env, ''index.ts'']"

definition apiRefsDir :: "('p, 't, 'a, 'd) env \<Rightarrow> string" where
  "apiRefsDir env = resolve (cwd env) [rootDir env, ''dist'']"

definition mkdocsYaml :: "('p, 't, 'a, 'd) env \<Rightarrow> string" where
  "mkdocsYaml env = resolve (cwd env) [apiRefsDir env, ''mkdocs.yml'']"

text \<open>Lines 55 to 57: what is done to the loaded options before the program is created.\<close>

definition programOptions :: "options \<Rightarrow> options" where
  "programOptions options =
     assignProp ''noEmit'' (JBool True)
       (assignProp ''removeComments'' (JBool False)
          (deleteProp ''moduleResolution'' options))"

text \<open>Lines 72 to 81: the callback of \<open>apis.map\<close>, and the map itself, which stops at
  the first call that throws.\<close>

definition buildDoc ::
  "('p, 't, 'a, 'd) env \<Rightarrow> 'p \<Rightarrow> 'a api_instance \<Rightarrow> thrown + 'd api_doc" where
  "buildDoc env program api =
     (case toDoc env program (rootDir env) (srcDir env) api of
        Inr doc \<Rightarrow> Inr doc
      | Inl error \<Rightarrow>
          Inl (newError env ''Error''
                 (''Doc generation failed for API in '' @ source_fileName api @ '', ''
                    @ stack error)))"

fun mapDocs ::
  "('p, 't, 'a, 'd) env \<Rightarrow> 'p \<Rightarrow> 'a api_instance list \<Rightarrow> thrown + 'd api_doc list" where
  "mapDocs env program [] = Inr []"
| "mapDocs env program (api # apis) =
     (case buildDoc env program api of
        Inl e \<Rightarrow> Inl e
      | Inr doc \<Rightarrow>
          (case mapDocs env program apis of
             Inl e \<Rightarrow> Inl e
           | Inr docs \<Rightarrow> Inr (doc # docs)))"

text \<open>
  \<open>Array.prototype.sort\<close> with a comparator is a stable sort: an element goes before
  the first later element it does not compare greater than.
\<close>

fun insertBy :: "('x \<Rightarrow> 'x \<Rightarrow> int) \<Rightarrow> 'x \<Rightarrow> 'x list \<Rightarrow> 'x list" where
  "insertBy cmp x [] = [x]"
| "insertBy cmp x (y # ys) = (if cmp x y \<le> 0 then x # y # ys else y # insertBy cmp x ys)"

definition array_sort :: "('x \<Rightarrow> 'x \<Rightarrow> int) \<Rightarrow> 'x list \<Rightarrow> 'x list" where
  "array_sort cmp xs = foldr (insertBy cmp) xs []"

text \<open>
  Lines 90 to 96: each document is printed and its write is issued, in order; a
  \<open>print\<close> that throws ends the map with the earlier writes already issued. The
  second component holds the outcome of each issued write.
\<close>

definition artifactPath :: "('p, 't, 'a, 'd) env \<Rightarrow> 'd api_doc \<Rightarrow> string" where
  "artifactPath env apiDoc = join [apiRefsDir env, ''docs'', doc_name apiDoc @ ''.md'']"

fun writeDocs ::
  "('p, 't, 'a, 'd) env \<Rightarrow> 'd api_doc list \<Rightarrow> event list \<times> (thrown + thrown option list)" where
  "writeDocs env [] = ([], Inr [])"
| "writeDocs env (apiDoc # apiDocs) =
     (case print env apiDoc of
        Inl e \<Rightarrow> ([], Inl e)
      | Inr data \<Rightarrow>
          (case writeDocs env apiDocs of
             (evs, r) \<Rightarrow>
               (WriteFile (artifactPath env apiDoc) data # evs,
                case r of
                  Inl e \<Rightarrow> Inl e
                | Inr outcomes \<Rightarrow>
                    Inr (writeFile env (artifactPath env apiDoc) data # outcomes))))"

text \<open>\<open>Promise.all\<close> rejects when a write rejects; the model reports the first
  rejected write in the order of issue.\<close>

fun firstRejection :: "thrown option list \<Rightarrow> thrown option" where
  "firstRejection [] = None"
| "firstRejection (None # outcomes) = firstRejection outcomes"
| "firstRejection (Some e # outcomes) = Some e"

text \<open>Lines 98 to 106: the text of the manifest.\<close>

definition navEntry :: "'d api_doc \<Rightarrow> string" where
  "navEntry apiDoc = ''  - '' @ doc_id apiDoc @ '': '' @ [CHR 0x27] @ doc_name apiDoc @ ''.md'' @ [CHR 0x27]"

definition manifest :: "'d api_doc list \<Rightarrow> string" where
  "manifest apiDocs =
     joinWith [CHR 0x0A] ([''site_name: api-references'', ''nav:''] @ map navEntry apiDocs)"

text \<open>Lines 88 to 106, on the sorted documents. \<open>process.chdir(rootDir)\<close> has run, so
  \<open>resolve\<close> works from \<open>rootDir\<close>.\<close>

definition emitDocs :: "('p, 't, 'a, 'd) env \<Rightarrow> 'd api_doc list \<Rightarrow> event list \<times> (thrown + unit)" where
  "emitDocs env apiDocs =
     (let docsDir = resolve (rootDir env) [apiRefsDir env, ''docs'']
      in case ensureDirSync env docsDir of
           Some e \<Rightarrow> ([EnsureDirSync docsDir], Inl e)
         | None \<Rightarrow>
             (case writeDocs env apiDocs of
                (evs, Inl e) \<Rightarrow> (EnsureDirSync docsDir # evs, Inl e)
              | (evs, Inr outcomes) \<Rightarrow>
                  (case firstRejection outcomes of
                     Some e \<Rightarrow> (EnsureDirSync docsDir # evs, Inl e)
                   | None \<Rightarrow>
                       (EnsureDirSync docsDir # evs
                          @ [WriteFileSync (mkdocsYaml env) (manifest apiDocs)],
                        case writeFileSync env (mkdocsYaml env) (manifest apiDocs) of
                          Some e \<Rightarrow> Inl e
                        | None \<Rightarrow> Inr ()))))"

text \<open>Lines 61 to 68: discovery. The argument \<open>getExportedType(...)\<close> is evaluated
  before the call of \<open>findExportedInstances\<close>.\<close>

definition locateApis :: "('p, 't, 'a, 'd) env \<Rightarrow> 'p \<Rightarrow> thrown + 'a api_instance list" where
  "locateApis env program =
     (case getExportedType env program (entrypoint env) ''createApiRef'' of
        Inl e \<Rightarrow> Inl e
      | Inr factory \<Rightarrow> findExportedInstances env program factory [srcDir env])"

text \<open>Lines 61 to 106, once the program exists.\<close>

definition generate :: "('p, 't, 'a, 'd) env \<Rightarrow> 'p \<Rightarrow> event list \<times> (thrown + unit)" where
  "generate env program =
     (case locateApis env program of
        Inl e \<Rightarrow> ([], Inl e)
      | Inr apis \<Rightarrow>
          (case mapDocs env program apis of
             Inl e \<Rightarrow> ([], Inl e)
           | Inr docs \<Rightarrow> emitDocs env (array_sort (sortSelector env doc_id) docs)))"

text \<open>
  \<open>main\<close>. \<open>delete options.moduleResolution\<close> on \<open>undefined\<close> (a root configuration
  without \<open>compilerOptions\<close>) throws a TypeError.
\<close>

definition tsconfig :: string where
  "tsconfig = ''../../../tsconfig.json''"

definition theProgram :: "('p, 't, 'a, 'd) env \<Rightarrow> options \<Rightarrow> 'p" where
  "theProgram env options = createProgram env [entrypoint env] (programOptions options)"

definition main :: "('p, 't, 'a, 'd) env \<Rightarrow> (event list \<times> (thrown + unit)) option" where
  "main env =
     (case chdir env (rootDir env) of
        Some e \<Rightarrow> Some ([Chdir (rootDir env)], Inl e)
      | None \<Rightarrow>
          Option.bind (loadOptions env tsconfig)
            (\<lambda>loaded. Some
               (case loaded of
                  Inl e \<Rightarrow> ([Chdir (rootDir env)], Inl e)
                | Inr None \<Rightarrow>
                    ([Chdir (rootDir env)],
                     Inl (newError env ''TypeError'' ''Cannot convert undefined or null to object''))
                | Inr (Some options) \<Rightarrow>
                    (case generate env (theProgram env options) of
                       (evs, r) \<Rightarrow>
                         (Chdir (rootDir env)
                            # CreateProgram [entrypoint env] (programOptions options) # evs,
                          r)))))"

text \<open>Lines 109 to 112: \<open>console.error(error.stack || error)\<close> and \<open>process.exit(1)\<close>
  when \<open>main\<close> rejects. The result is the trace and the exit status.\<close>

definition stackOrError :: "thrown \<Rightarrow> logged" where
  "stackOrError error =
     (if stack error = [] then LogValue error else LogText (stack error))"

definition run :: "('p, 't, 'a, 'd) env \<Rightarrow> (event list \<times> nat) option" where
  "run env =
     (case main env of
        None \<Rightarrow> None
      | Some (evs, Inr u) \<Rightarrow> Some (evs, 0)
      | Some (evs, Inl error) \<Rightarrow> Some (evs @ [ConsoleError (stackOrError error), Exit 1], 1))"

text \<open>The events that write to the file system.\<close>

fun isOutput :: "event \<Rightarrow> bool" where
  "isOutput (EnsureDirSync dir) = True"
| "isOutput (WriteFile file data) = True"
| "isOutput (WriteFileSync file data) = True"
| "isOutput (Chdir dir) = False"
| "isOutput (CreateProgram files options) = False"
| "isOutput (ConsoleError v) = False"
| "isOutput (Exit status) = False"

fun isWriteFile :: "event \<Rightarrow> bool" where
  "isWriteFile (WriteFile file data) = True"
| "isWriteFile ev = False"

subsection \<open>The ordering selector\<close>

text \<open>
  Modelled from the spec: \<open>docgen/sortSelector\<close> is imported by the driver and is not
  among the sources. Section 4.3 of the specification: \<open>sortSelector(projection)\<close> is a
  comparator whose key is \<open>projection(item)\<close> compared case-insensitively as a sequence
  of code points. Case is folded on the letters A to Z; a string is a list of
  characters, compared lexicographically by character code.
\<close>

definition toLowerChar :: "char \<Rightarrow> char" where
  "toLowerChar c =
     (let n = (of_char c :: nat) in if 65 \<le> n \<and> n \<le> 90 then char_of (n + 32) else c)"

definition caseFold :: "string \<Rightarrow> string" where
  "caseFold s = map toLowerChar s"

definition sortSelector_spec :: "('x \<Rightarrow> string) \<Rightarrow> 'x \<Rightarrow> 'x \<Rightarrow> int" where
  "sortSelector_spec projection a b =
     (let ka = caseFold (projection a); kb = caseFold (projection b)
      in if ka < kb then - 1 else if kb < ka then 1 else 0)"

subsection \<open>A small repository to run the driver on\<close>

text \<open>
  A tsconfig that extends a base file, two API references discovered in the order b, a,
  and collaborators that succeed. The variants below make one collaborator fail.
\<close>

definition demo_base :: config where
  "demo_base =
     \<lparr>extends = None,
      compilerOptions = Some [''target'' \<mapsto> JStr ''es2019'', ''strict'' \<mapsto> JBool False,
                              ''noEmit'' \<mapsto> JBool False]\<rparr>"

definition demo_tsconfig :: config where
  "demo_tsconfig =
     \<lparr>extends = Some ''./config/base.json'',
      compilerOptions = Some [''strict'' \<mapsto> JBool True, ''removeComments'' \<mapsto> JBool True,
                              ''moduleResolution'' \<mapsto> JStr ''node'']\<rparr>"

definition demo_require :: "string \<Rightarrow> thrown + config" where
  "demo_require path =
     (if path = ''../../../tsconfig.json'' then Inr demo_tsconfig
      else if path = ''../../../config/base.json'' then Inr demo_base
      else Inl (Thrown (''Cannot find module '' @ path) ''Error: Cannot find module''))"

definition demo_merged :: options where
  "demo_merged =
     spread (spread Map.empty (compilerOptions demo_base)) (compilerOptions demo_tsconfig)"

definition demo_apiA :: "nat api_instance" where
  "demo_apiA = \<lparr>source_fileName = ''/repo/packages/core-api/src/a.ts'', instance_content = 1\<rparr>"

definition demo_apiB :: "nat api_instance" where
  "demo_apiB = \<lparr>source_fileName = ''/repo/packages/core-api/src/b.ts'', instance_content = 2\<rparr>"

definition demo_apis :: "nat api_instance list" where
  "demo_apis = [demo_apiB, demo_apiA]"

definition demo_docA :: "nat api_doc" where
  "demo_docA = \<lparr>doc_id = ''a.ref'', doc_name = ''aApiRef'', doc_content = 1\<rparr>"

definition demo_docB :: "nat api_doc" where
  "demo_docB = \<lparr>doc_id = ''b.ref'', doc_name = ''bApiRef'', doc_content = 2\<rparr>"

definition demo_toDoc ::
  "unit \<Rightarrow> string \<Rightarrow> string \<Rightarrow> nat api_instance \<Rightarrow> thrown + nat api_doc" where
  "demo_toDoc program root src api =
     (if instance_content api = 2 then Inr demo_docB else Inr demo_docA)"

definition demo_env :: "(unit, unit, nat, nat) env" where
  "demo_env =
     \<lparr>moduleDirname = ''/repo/packages/docgen/src'',
      cwd = ''/repo'',
      stackFrames = [],
      require = demo_require,
      chdir = (\<lambda>dir. None),
      createProgram = (\<lambda>files options. ()),
      getExportedType = (\<lambda>program file name. Inr ()),
      findExportedInstances = (\<lambda>program factory dirs. Inr demo_apis),
      toDoc = demo_toDoc,
      sortSelector = sortSelector_spec,
      print = (\<lambda>doc. Inr (''# '' @ doc_name doc)),
      ensureDirSync = (\<lambda>dir. None),
      writeFile = (\<lambda>file data. None),
      writeFileSync = (\<lambda>file data. None)\<rparr>"

definition demo_cause :: thrown where
  "demo_cause = Thrown ''unresolved type'' ''Error: unresolved type''"

definition failing_toDoc ::
  "unit \<Rightarrow> string \<Rightarrow> string \<Rightarrow> nat api_instance \<Rightarrow> thrown + nat api_doc" where
  "failing_toDoc program root src api =
     (if instance_content api = 2 then Inr demo_docB else Inl demo_cause)"

definition failing_env :: "(unit, unit, nat, nat) env" where
  "failing_env = demo_env\<lparr>toDoc := failing_toDoc\<rparr>"


definition cyclic_env :: "(unit, unit, nat, nat) env" where
  "cyclic_env =
     demo_env\<lparr>require :=
       (\<lambda>path. Inr \<lparr>extends = Some ''/etc/loop.json'', compilerOptions = None\<rparr>)\<rparr>"

text \<open>What the driver does on the small repository.\<close>

definition demo_manifest :: string where
  "demo_manifest =
     ''site_name: api-references'' @ [CHR 0x0A] @ ''nav:'' @ [CHR 0x0A]
       @ ''  - a.ref: '' @ [CHR 0x27] @ ''aApiRef.md'' @ [CHR 0x27] @ [CHR 0x0A]
       @ ''  - b.ref: '' @ [CHR 0x27] @ ''bApiRef.md'' @ [CHR 0x27]"

definition demo_outputs :: "event list" where
  "demo_outputs =
     [EnsureDirSync ''/repo/packages/docgen/dist/docs'',
      WriteFile ''/repo/packages/docgen/dist/docs/aApiRef.md'' ''# aApiRef'',
      WriteFile ''/repo/packages/docgen/dist/docs/bApiRef.md'' ''# bApiRef'',
      WriteFileSync ''/repo/packages/docgen/dist/mkdocs.yml'' demo_manifest]"

definition demo_start :: "event list" where
  "demo_start =
     [Chdir ''/repo/packages/docgen'',
      CreateProgram [''/repo/packages/core-api/src/index.ts''] (programOptions demo_merged)]"

definition demo_wrapped :: thrown where
  "demo_wrapped =
     Thrown ''Doc generation failed for API in /repo/packages/core-api/src/a.ts, Error: unresolved type''
       ''Error: Doc generation failed for API in /repo/packages/core-api/src/a.ts, Error: unresolved type''"

text \<open>Three documents, two of which have the same identifier up to case.\<close>

definition tie_docs :: "nat api_doc list" where
  "tie_docs =
     [\<lparr>doc_id = ''b.ref'', doc_name = ''first'', doc_content = 1\<rparr>,
      \<lparr>doc_id = ''A.ref'', doc_name = ''second'', doc_content = 2\<rparr>,
      \<lparr>doc_id = ''a.ref'', doc_name = ''third'', doc_content = 3\<rparr>]"

definition tie_sorted :: "nat api_doc list" where
  "tie_sorted =
     [\<lparr>doc_id = ''A.ref'', doc_name = ''second'', doc_content = 2\<rparr>,
      \<lparr>doc_id = ''a.ref'', doc_name = ''third'', doc_content = 3\<rparr>,
      \<lparr>doc_id = ''b.ref'', doc_name = ''first'', doc_content = 1\<rparr>]"

definition demo_console :: "event list" where
  "demo_console =
     [ConsoleError (LogText ''Error: Doc generation failed for API in /repo/packages/core-api/src/a.ts, Error: unresolved type''),
      Exit 1]"

section \<open>Properties\<close>

subsection \<open>One step of loadOptions\<close>

lemma loadOptions_root:
  "require env path = Inr config \<Longrightarrow> extends config = None \<or> extends config = Some [] \<Longrightarrow>
   loadOptions env path = Some (Inr (compilerOptions config))"
  by (subst loadOptions.simps) auto

lemma loadOptions_child:
  "require env path = Inr config \<Longrightarrow> extends config = Some parent \<Longrightarrow> parent \<noteq> [] \<Longrightarrow>
   loadOptions env path =
     Option.bind (loadOptions env (parentPath path parent))
       (\<lambda>loaded. case loaded of
            Inl e \<Rightarrow> Some (Inl e)
          | Inr parentOptions \<Rightarrow>
              Some (Inr (Some (spread (spread Map.empty parentOptions) (compilerOptions config)))))"
  by (subst loadOptions.simps) auto

lemma loadOptions_throw:
  "require env path = Inl e \<Longrightarrow> loadOptions env path = Some (Inl e)"
  by (subst loadOptions.simps) auto

lemma spread_lookup:
  "spread (spread Map.empty parentOptions) childOptions k =
     (case getProp childOptions k of Some v \<Rightarrow> Some v | None \<Rightarrow> getProp parentOptions k)"
  by (auto simp: spread_def getProp_def map_add_def split: option.splits)

subsection \<open>The shape of a run\<close>

lemma isWriteFile_writeDocs:
  "writeDocs env docs = (evs, r) \<Longrightarrow> ev \<in> set evs \<Longrightarrow> isWriteFile ev"
  by (induction docs arbitrary: evs r ev) (auto split: sum.splits prod.splits)

lemma isWriteFile_isOutput: "isWriteFile ev \<Longrightarrow> isOutput ev"
  by (cases ev) auto

lemma isOutput_emitDocs: "ev \<in> set (fst (emitDocs env docs)) \<Longrightarrow> isOutput ev"
  by (auto simp: emitDocs_def Let_def split: option.splits sum.splits prod.splits
      dest!: isWriteFile_writeDocs isWriteFile_isOutput)

lemma isOutput_generate: "ev \<in> set (fst (generate env program)) \<Longrightarrow> isOutput ev"
  by (auto simp: generate_def split: sum.splits dest: isOutput_emitDocs)

lemma main_cases:
  assumes "main env = Some (evs, r)"
  shows "(\<exists>e. evs = [Chdir (rootDir env)] \<and> r = Inl e) \<or>
         (\<exists>merged. chdir env (rootDir env) = None \<and>
            loadOptions env tsconfig = Some (Inr (Some merged)) \<and>
            evs = Chdir (rootDir env) # CreateProgram [entrypoint env] (programOptions merged)
                    # fst (generate env (theProgram env merged)) \<and>
            r = snd (generate env (theProgram env merged)))"
  using assms
  by (auto simp: main_def split: option.splits sum.splits prod.splits bind_splits)

lemma main_loaded:
  assumes "chdir env (rootDir env) = None"
    and "loadOptions env tsconfig = Some (Inr (Some merged))"
  shows "main env =
           Some (Chdir (rootDir env) # CreateProgram [entrypoint env] (programOptions merged)
                   # fst (generate env (theProgram env merged)),
                 snd (generate env (theProgram env merged)))"
  using assms by (simp add: main_def split: prod.splits)

lemma main_CreateProgram:
  assumes "main env = Some (evs, r)" and "CreateProgram files opts \<in> set evs"
  shows "\<exists>merged. loadOptions env tsconfig = Some (Inr (Some merged)) \<and>
           files = [entrypoint env] \<and> opts = programOptions merged"
proof -
  from main_cases[OF assms(1)] assms(2) obtain merged where
    m: "loadOptions env tsconfig = Some (Inr (Some merged))"
    and evs: "evs = Chdir (rootDir env) # CreateProgram [entrypoint env] (programOptions merged)
                    # fst (generate env (theProgram env merged))"
    by auto
  have "CreateProgram files opts \<notin> set (fst (generate env (theProgram env merged)))"
    using isOutput_generate[of "CreateProgram files opts" env "theProgram env merged"] by auto
  with assms(2) evs have "files = [entrypoint env] \<and> opts = programOptions merged" by auto
  with m show ?thesis by blast
qed

subsection \<open>The run on the small repository\<close>

text \<open>The facts hold for every environment that has the directories and the
  configuration files of the small repository, so that the failing variants share them.\<close>

lemma small_repo_docsDir:
  "resolve ''/repo/packages/docgen'' [''/repo/packages/docgen/dist'', ''docs'']
     = ''/repo/packages/docgen/dist/docs''"
  by code_simp

lemma small_repo_paths:
  assumes "moduleDirname env = ''/repo/packages/docgen/src''" and "cwd env = ''/repo''"
  shows "rootDir env = ''/repo/packages/docgen''"
    and "srcDir env = ''/repo/packages/core-api/src''"
    and "entrypoint env = ''/repo/packages/core-api/src/index.ts''"
    and "apiRefsDir env = ''/repo/packages/docgen/dist''"
    and "mkdocsYaml env = ''/repo/packages/docgen/dist/mkdocs.yml''"
    and "resolve (rootDir env) [apiRefsDir env, ''docs''] = ''/repo/packages/docgen/dist/docs''"
proof -
  have r: "resolve ''/repo'' [''/repo/packages/docgen/src'', ''..''] = ''/repo/packages/docgen''"
    by code_simp
  have s: "resolve ''/repo'' [''/repo/packages/docgen'', ''..'', ''core-api'', ''src'']
             = ''/repo/packages/core-api/src''"
    by code_simp
  have e: "resolve ''/repo'' [''/repo/packages/core-api/src'', ''index.ts'']
             = ''/repo/packages/core-api/src/index.ts''"
    by code_simp
  have a: "resolve ''/repo'' [''/repo/packages/docgen'', ''dist''] = ''/repo/packages/docgen/dist''"
    by code_simp
  have m: "resolve ''/repo'' [''/repo/packages/docgen/dist'', ''mkdocs.yml'']
             = ''/repo/packages/docgen/dist/mkdocs.yml''"
    by code_simp
  show 1: "rootDir env = ''/repo/packages/docgen''"
    by (simp only: rootDir_def assms r)
  show 2: "srcDir env = ''/repo/packages/core-api/src''"
    by (simp only: srcDir_def assms 1 s)
  show "entrypoint env = ''/repo/packages/core-api/src/index.ts''"
    by (simp only: entrypoint_def assms 2 e)
  show 4: "apiRefsDir env = ''/repo/packages/docgen/dist''"
    by (simp only: apiRefsDir_def assms 1 a)
  show "mkdocsYaml env = ''/repo/packages/docgen/dist/mkdocs.yml''"
    by (simp only: mkdocsYaml_def assms 4 m)
  show "resolve (rootDir env) [apiRefsDir env, ''docs''] = ''/repo/packages/docgen/dist/docs''"
    by (simp only: 1 4 small_repo_docsDir)
qed

lemma demo_parentPath: "parentPath tsconfig ''./config/base.json'' = ''../../../config/base.json''"
  by code_simp

lemma small_repo_loadOptions_base:
  assumes "require env = demo_require"
  shows "loadOptions env ''../../../config/base.json'' = Some (Inr (compilerOptions demo_base))"
  by (rule loadOptions_root[where config = demo_base])
     (simp_all add: assms demo_require_def demo_base_def)

lemma small_repo_loadOptions:
  assumes "require env = demo_require"
  shows "loadOptions env tsconfig = Some (Inr (Some demo_merged))"
proof -
  have "loadOptions env tsconfig =
          Option.bind (loadOptions env (parentPath tsconfig ''./config/base.json''))
            (\<lambda>loaded. case loaded of
                 Inl e \<Rightarrow> Some (Inl e)
               | Inr parentOptions \<Rightarrow>
                   Some (Inr (Some (spread (spread Map.empty parentOptions)
                                      (compilerOptions demo_tsconfig)))))"
    by (rule loadOptions_child[where config = demo_tsconfig])
       (simp_all add: assms demo_require_def demo_tsconfig_def tsconfig_def)
  then show ?thesis
    by (simp add: demo_parentPath small_repo_loadOptions_base[OF assms] demo_merged_def)
qed

lemma demo_fields:
  "moduleDirname demo_env = ''/repo/packages/docgen/src''"
  "cwd demo_env = ''/repo''"
  "stackFrames demo_env = []"
  "require demo_env = demo_require"
  "chdir demo_env dir = None"
  "print demo_env doc = Inr (''# '' @ doc_name doc)"
  "ensureDirSync demo_env dir = None"
  "writeFile demo_env file data = None"
  "writeFileSync demo_env file data = None"
  "sortSelector demo_env = sortSelector_spec"
  by (simp_all add: demo_env_def)

lemma failing_fields:
  "moduleDirname failing_env = ''/repo/packages/docgen/src''"
  "cwd failing_env = ''/repo''"
  "stackFrames failing_env = []"
  "require failing_env = demo_require"
  "chdir failing_env dir = None"
  "toDoc failing_env = failing_toDoc"
  by (simp_all add: failing_env_def demo_env_def)


lemmas demo_paths = small_repo_paths[OF demo_fields(1,2)]

lemmas failing_paths = small_repo_paths[OF failing_fields(1,2)]


lemmas demo_loadOptions = small_repo_loadOptions[OF demo_fields(4)]

lemmas failing_loadOptions = small_repo_loadOptions[OF failing_fields(4)]


lemma demo_merged_values:
  "demo_merged ''strict'' = Some (JBool True)"
  "demo_merged ''target'' = Some (JStr ''es2019'')"
  "demo_merged ''removeComments'' = Some (JBool True)"
  "demo_merged ''noEmit'' = Some (JBool False)"
  "demo_merged ''moduleResolution'' = Some (JStr ''node'')"
  by (simp_all add: demo_merged_def demo_base_def demo_tsconfig_def spread_def)

lemma demo_artifactPath:
  "artifactPath demo_env demo_docA = ''/repo/packages/docgen/dist/docs/aApiRef.md''"
  "artifactPath demo_env demo_docB = ''/repo/packages/docgen/dist/docs/bApiRef.md''"
  by code_simp+

lemma demo_locateApis: "locateApis demo_env program = Inr demo_apis"
  by (simp add: locateApis_def demo_env_def)

lemma failing_locateApis: "locateApis failing_env program = Inr demo_apis"
  by (simp add: locateApis_def failing_env_def demo_env_def)

lemma demo_mapDocs: "mapDocs demo_env () demo_apis = Inr [demo_docB, demo_docA]"
  by code_simp

lemma demo_sort:
  "array_sort (sortSelector demo_env doc_id) [demo_docB, demo_docA] = [demo_docA, demo_docB]"
  by code_simp

lemma demo_manifest_eq: "manifest [demo_docA, demo_docB] = demo_manifest"
  by code_simp

lemma demo_emitDocs: "emitDocs demo_env [demo_docA, demo_docB] = (demo_outputs, Inr ())"
  by (simp add: emitDocs_def demo_paths small_repo_docsDir demo_artifactPath demo_fields
      demo_manifest_eq demo_outputs_def)
     (simp add: demo_docA_def demo_docB_def)

lemma demo_generate: "generate demo_env () = (demo_outputs, Inr ())"
  by (simp add: generate_def demo_locateApis demo_mapDocs demo_sort demo_emitDocs)

lemma demo_main: "main demo_env = Some (demo_start @ demo_outputs, Inr ())"
  using main_loaded[OF demo_fields(5) demo_loadOptions]
  by (simp add: demo_paths demo_generate demo_start_def theProgram_def)

lemma demo_CreateProgram:
  "CreateProgram [''/repo/packages/core-api/src/index.ts''] (programOptions demo_merged)
     \<in> set (demo_start @ demo_outputs)"
  by (simp add: demo_start_def)

subsection \<open>Loading the options\<close>

text \<open>
  Claim C5. For a configuration file that loads: when it declares no parent
  (\<open>extends\<close> absent or empty), \<open>loadOptions\<close> returns its \<open>compilerOptions\<close>
  unchanged; when it declares a parent whose own \<open>loadOptions\<close> returns
  \<open>parentOptions\<close>, it returns the merge of the two, in which every key of the file's
  \<open>compilerOptions\<close> has the file's value and every other key has the value it has in
  \<open>parentOptions\<close>.
\<close>

theorem loadOptions_merges_parent:
  assumes "require env path = Inr config"
  shows "((extends config = None \<or> extends config = Some []) \<longrightarrow>
            loadOptions env path = Some (Inr (compilerOptions config))) \<and>
         (\<forall>parent parentOptions.
            extends config = Some parent \<and> parent \<noteq> [] \<and>
            loadOptions env (parentPath path parent) = Some (Inr parentOptions) \<longrightarrow>
            (\<exists>merged. loadOptions env path = Some (Inr (Some merged)) \<and>
               (\<forall>k. merged k =
                  (case getProp (compilerOptions config) k of
                     Some v \<Rightarrow> Some v
                   | None \<Rightarrow> getProp parentOptions k))))"
proof (intro conjI impI allI)
  assume "extends config = None \<or> extends config = Some []"
  with assms show "loadOptions env path = Some (Inr (compilerOptions config))"
    by (rule loadOptions_root)
next
  fix parent parentOptions
  assume a: "extends config = Some parent \<and> parent \<noteq> [] \<and>
             loadOptions env (parentPath path parent) = Some (Inr parentOptions)"
  then have "loadOptions env path =
               Some (Inr (Some (spread (spread Map.empty parentOptions) (compilerOptions config))))"
    using loadOptions_child[OF assms, of parent] by simp
  then show "\<exists>merged. loadOptions env path = Some (Inr (Some merged)) \<and>
               (\<forall>k. merged k =
                  (case getProp (compilerOptions config) k of
                     Some v \<Rightarrow> Some v
                   | None \<Rightarrow> getProp parentOptions k))"
    using spread_lookup[of parentOptions "compilerOptions config"] by simp
qed

theorem loadOptions_merges_parent_witness:
  "require demo_env tsconfig = Inr demo_tsconfig \<and>
   extends demo_tsconfig = Some ''./config/base.json'' \<and>
   loadOptions demo_env (parentPath tsconfig ''./config/base.json'')
     = Some (Inr (compilerOptions demo_base)) \<and>
   (\<exists>merged. loadOptions demo_env tsconfig = Some (Inr (Some merged)) \<and>
      getProp (compilerOptions demo_base) ''strict'' = Some (JBool False) \<and>
      merged ''strict'' = Some (JBool True) \<and>
      merged ''target'' = Some (JStr ''es2019'') \<and>
      merged ''lib'' = None)"
proof -
  have r: "require demo_env tsconfig = Inr demo_tsconfig"
    by (simp add: demo_env_def demo_require_def tsconfig_def)
  have e: "extends demo_tsconfig = Some ''./config/base.json''"
    by (simp add: demo_tsconfig_def)
  have p: "loadOptions demo_env (parentPath tsconfig ''./config/base.json'')
             = Some (Inr (compilerOptions demo_base))"
    by (simp add: demo_parentPath small_repo_loadOptions_base[OF demo_fields(4)])
  from loadOptions_merges_parent[OF r] e p obtain merged where
    m: "loadOptions demo_env tsconfig = Some (Inr (Some merged))" and
    k: "\<forall>k. merged k =
          (case getProp (compilerOptions demo_tsconfig) k of
             Some v \<Rightarrow> Some v
           | None \<Rightarrow> getProp (compilerOptions demo_base) k)"
    by blast
  from k have "merged ''strict'' = Some (JBool True)"
    and "merged ''target'' = Some (JStr ''es2019'')"
    and "merged ''lib'' = None"
    by (simp_all add: getProp_def demo_tsconfig_def demo_base_def)
  moreover have "getProp (compilerOptions demo_base) ''strict'' = Some (JBool False)"
    by (simp add: getProp_def demo_base_def)
  ultimately show ?thesis using r e p m by blast
qed

subsection \<open>The options handed to the compiler\<close>

text \<open>
  Claim C6. Whatever the configuration says, the option set of every program creation
  of a run has \<open>removeComments\<close> set to false and \<open>noEmit\<close> set to true.
\<close>

theorem programOptions_overrides:
  assumes "main env = Some (evs, r)" and "CreateProgram files opts \<in> set evs"
  shows "opts ''removeComments'' = Some (JBool False) \<and> opts ''noEmit'' = Some (JBool True)"
  using main_CreateProgram[OF assms]
  by (auto simp: programOptions_def assignProp_def deleteProp_def)

theorem programOptions_overrides_witness:
  "main demo_env = Some (demo_start @ demo_outputs, Inr ()) \<and>
   CreateProgram [''/repo/packages/core-api/src/index.ts''] (programOptions demo_merged)
     \<in> set (demo_start @ demo_outputs) \<and>
   demo_merged ''removeComments'' = Some (JBool True) \<and>
   demo_merged ''noEmit'' = Some (JBool False) \<and>
   programOptions demo_merged ''removeComments'' = Some (JBool False) \<and>
   programOptions demo_merged ''noEmit'' = Some (JBool True)"
  using programOptions_overrides[OF demo_main demo_CreateProgram]
    demo_main demo_CreateProgram demo_merged_values
  by blast

text \<open>
  Claim C10. The option set of every program creation of a run has no
  \<open>moduleResolution\<close> key, and every key other than \<open>removeComments\<close>, \<open>noEmit\<close> and
  \<open>moduleResolution\<close> has there the value it has in the result of \<open>loadOptions\<close>.
\<close>

theorem programOptions_frame:
  assumes "main env = Some (evs, r)" and "CreateProgram files opts \<in> set evs"
  shows "\<exists>merged. loadOptions env tsconfig = Some (Inr (Some merged)) \<and>
           opts ''moduleResolution'' = None \<and>
           (\<forall>k. k \<notin> {''removeComments'', ''noEmit'', ''moduleResolution''} \<longrightarrow>
                  opts k = merged k)"
  using main_CreateProgram[OF assms]
  by (auto simp: programOptions_def assignProp_def deleteProp_def)

theorem programOptions_frame_witness:
  "main demo_env = Some (demo_start @ demo_outputs, Inr ()) \<and>
   CreateProgram [''/repo/packages/core-api/src/index.ts''] (programOptions demo_merged)
     \<in> set (demo_start @ demo_outputs) \<and>
   loadOptions demo_env tsconfig = Some (Inr (Some demo_merged)) \<and>
   demo_merged ''moduleResolution'' = Some (JStr ''node'') \<and>
   programOptions demo_merged ''moduleResolution'' = None \<and>
   programOptions demo_merged ''strict'' = Some (JBool True) \<and>
   programOptions demo_merged ''target'' = Some (JStr ''es2019'')"
proof -
  from programOptions_frame[OF demo_main demo_CreateProgram] obtain merged where
    l: "loadOptions demo_env tsconfig = Some (Inr (Some merged))" and
    r: "programOptions demo_merged ''moduleResolution'' = None" and
    f: "\<forall>k. k \<notin> {''removeComments'', ''noEmit'', ''moduleResolution''} \<longrightarrow>
             programOptions demo_merged k = merged k"
    by blast
  from l have e: "merged = demo_merged" by (simp add: demo_loadOptions)
  from f e have "programOptions demo_merged ''strict'' = demo_merged ''strict''"
    and "programOptions demo_merged ''target'' = demo_merged ''target''" by simp_all
  with demo_main demo_CreateProgram demo_merged_values r l e show ?thesis by simp
qed

subsection \<open>Termination of loadOptions\<close>

lemma extendsChain_returns:
  "extendsChain env path files \<Longrightarrow> \<exists>opts. loadOptions env path = Some (Inr opts)"
proof (induction rule: extendsChain.induct)
  case (chainRoot env path config)
  then show ?case using loadOptions_root by blast
next
  case (chainStep env path config parent files)
  then obtain opts where "loadOptions env (parentPath path parent) = Some (Inr opts)" by blast
  with chainStep.hyps(1-3) show ?case
    by (simp add: loadOptions_child)
qed

lemma returns_extendsChain:
  assumes "loadOptions env path = Some r"
  shows "\<forall>opts. r = Inr opts \<longrightarrow> (\<exists>files. extendsChain env path files)"
  using assms
proof (induction rule: loadOptions.raw_induct[rotated, consumes 1])
  case (1 loadOptions' env path r)
  show ?case
  proof (cases "require env path")
    case (Inl e)
    with 1(2) show ?thesis by auto
  next
    case (Inr config)
    show ?thesis
    proof (cases "extends config = None \<or> extends config = Some []")
      case True
      with Inr show ?thesis by (blast intro: chainRoot)
    next
      case False
      then obtain parent where p: "extends config = Some parent" "parent \<noteq> []" by auto
      show ?thesis
      proof (intro allI impI)
        fix opts assume "r = Inr opts"
        with 1(2) Inr p obtain popts where
          "loadOptions' env (parentPath path parent) = Some (Inr popts)"
          by (auto split: sum.splits bind_splits)
        from 1(1)[OF this] obtain files where "extendsChain env (parentPath path parent) files"
          by blast
        with Inr p show "\<exists>files. extendsChain env path files"
          by (blast intro: chainStep)
      qed
    qed
  qed
qed

lemma self_cycle_diverges:
  assumes "require env path = Inr config" and "extends config = Some parent"
    and "parent \<noteq> []" and "parentPath path parent = path"
  shows "loadOptions env path = None"
proof (rule ccontr)
  assume "loadOptions env path \<noteq> None"
  then obtain r where r: "loadOptions env path = Some r" by auto
  have "loadOptions env' path' = Some r' \<Longrightarrow> \<not> (env' = env \<and> path' = path)" for env' path' r'
  proof (induction rule: loadOptions.raw_induct[rotated, consumes 1])
    case (1 loadOptions' env' path' r')
    show ?case
    proof
      assume e: "env' = env \<and> path' = path"
      with 1(2) assms obtain r'' where "loadOptions' env path = Some r''"
        by (auto split: bind_splits)
      from 1(1)[OF this] show False by simp
    qed
  qed
  from this[OF r] show False by simp
qed

lemma extendsChain_nonempty: "extendsChain env path files \<Longrightarrow> files \<noteq> []"
  by (induction rule: extendsChain.induct) simp_all

lemma extendsChain_value:
  "extendsChain env path files \<Longrightarrow> loadOptions env path = Some (Inr (mergeChain env files))"
proof (induction rule: extendsChain.induct)
  case (chainRoot env path config)
  then show ?case by (simp add: loadOptions_root)
next
  case (chainStep env path config parent files)
  from chainStep.hyps(4) obtain p ps where f: "files = p # ps"
    by (cases files) (auto dest: extendsChain_nonempty)
  from chainStep show ?case
    by (simp add: loadOptions_child f)
qed

lemma mergeChain_lookup:
  "extendsChain env path files \<Longrightarrow> getProp (mergeChain env files) k = firstDefined env files k"
proof (induction rule: extendsChain.induct)
  case (chainRoot env path config)
  then show ?case by (simp split: option.splits)
next
  case (chainStep env path config parent files)
  from chainStep.hyps(4) obtain p ps where f: "files = p # ps"
    by (cases files) (auto dest: extendsChain_nonempty)
  from chainStep.IH chainStep.hyps(1) show ?case
    unfolding f
    by (simp add: spread_lookup getProp_def[of "Some _"] split: option.splits)
qed

lemma demo_mergeChain:
  "mergeChain demo_env [tsconfig, ''../../../config/base.json''] = Some demo_merged"
  by (simp add: demo_fields demo_require_def tsconfig_def demo_merged_def)

lemma demo_firstDefined:
  "firstDefined demo_env [tsconfig, ''../../../config/base.json''] ''strict'' = Some (JBool True)"
  "firstDefined demo_env [tsconfig, ''../../../config/base.json''] ''target''
     = Some (JStr ''es2019'')"
  by (simp_all add: demo_fields demo_require_def tsconfig_def demo_tsconfig_def demo_base_def
      getProp_def)

text \<open>
  Claim C9. When the chain of \<open>extends\<close> from a file ends (every file of the chain
  loads, the parent of a file is \<open>parentPath\<close>, a parent starting with a dot joined to
  the directory of the file that names it, and the last file names no parent),
  \<open>loadOptions\<close> returns, and what it returns is the merged option set of the chain,
  in which a key has the value of the first file, child first, that has it. It returns
  an option set only then. Nothing detects a cycle: on a file that is its own parent the
  function does not return.
\<close>

theorem loadOptions_returns_iff_chain_ends:
  "(\<forall>files. extendsChain env path files \<longrightarrow>
      loadOptions env path = Some (Inr (mergeChain env files)) \<and>
      (\<forall>k. getProp (mergeChain env files) k = firstDefined env files k)) \<and>
   ((\<exists>files. extendsChain env path files) \<longleftrightarrow> (\<exists>opts. loadOptions env path = Some (Inr opts))) \<and>
   (\<forall>config parent.
      require env path = Inr config \<and> extends config = Some parent \<and> parent \<noteq> [] \<and>
      parentPath path parent = path \<longrightarrow> loadOptions env path = None)"
proof (intro conjI iffI allI impI)
  fix files assume "extendsChain env path files"
  then show "loadOptions env path = Some (Inr (mergeChain env files))"
    by (rule extendsChain_value)
next
  fix files k assume "extendsChain env path files"
  then show "getProp (mergeChain env files) k = firstDefined env files k"
    by (rule mergeChain_lookup)
next
  assume "\<exists>files. extendsChain env path files"
  then show "\<exists>opts. loadOptions env path = Some (Inr opts)"
    by (blast dest: extendsChain_returns)
next
  assume "\<exists>opts. loadOptions env path = Some (Inr opts)"
  then show "\<exists>files. extendsChain env path files"
    by (blast dest: returns_extendsChain)
next
  fix config parent
  assume "require env path = Inr config \<and> extends config = Some parent \<and> parent \<noteq> [] \<and>
          parentPath path parent = path"
  then show "loadOptions env path = None"
    using self_cycle_diverges by blast
qed

theorem loadOptions_returns_iff_chain_ends_witness:
  "extendsChain demo_env tsconfig [tsconfig, ''../../../config/base.json''] \<and>
   mergeChain demo_env [tsconfig, ''../../../config/base.json''] = Some demo_merged \<and>
   loadOptions demo_env tsconfig = Some (Inr (Some demo_merged)) \<and>
   demo_merged ''strict'' = Some (JBool True) \<and>
   demo_merged ''target'' = Some (JStr ''es2019'') \<and>
   require cyclic_env ''/etc/loop.json''
     = Inr \<lparr>extends = Some ''/etc/loop.json'', compilerOptions = None\<rparr> \<and>
   parentPath ''/etc/loop.json'' ''/etc/loop.json'' = ''/etc/loop.json'' \<and>
   loadOptions cyclic_env ''/etc/loop.json'' = None"
proof -
  have b: "extendsChain demo_env ''../../../config/base.json'' [''../../../config/base.json'']"
    by (rule chainRoot[where config = demo_base])
       (simp_all add: demo_fields demo_require_def demo_base_def)
  have c: "extendsChain demo_env tsconfig [tsconfig, ''../../../config/base.json'']"
    by (rule chainStep[where config = demo_tsconfig and parent = "''./config/base.json''"])
       (simp_all add: demo_fields demo_require_def demo_tsconfig_def tsconfig_def
          demo_parentPath[unfolded tsconfig_def] b)
  have r: "require cyclic_env ''/etc/loop.json''
             = Inr \<lparr>extends = Some ''/etc/loop.json'', compilerOptions = None\<rparr>"
    by (simp add: cyclic_env_def)
  have p: "parentPath ''/etc/loop.json'' ''/etc/loop.json'' = ''/etc/loop.json''"
    by (simp add: parentPath_def startsWith_def)
  note t = loadOptions_returns_iff_chain_ends[of demo_env tsconfig]
  from t c have l: "loadOptions demo_env tsconfig
      = Some (Inr (mergeChain demo_env [tsconfig, ''../../../config/base.json'']))"
    by blast
  from t c have k: "\<forall>k. getProp (mergeChain demo_env [tsconfig, ''../../../config/base.json'']) k
      = firstDefined demo_env [tsconfig, ''../../../config/base.json''] k"
    by blast
  from l have 1: "loadOptions demo_env tsconfig = Some (Inr (Some demo_merged))"
    by (simp only: demo_mergeChain)
  from k have "getProp (Some demo_merged) ''strict'' = Some (JBool True)"
    and "getProp (Some demo_merged) ''target'' = Some (JStr ''es2019'')"
    by (simp_all only: demo_mergeChain demo_firstDefined)
  then have 2: "demo_merged ''strict'' = Some (JBool True)"
    and 3: "demo_merged ''target'' = Some (JStr ''es2019'')"
    by (simp_all add: getProp_def)
  from loadOptions_returns_iff_chain_ends[of cyclic_env "''/etc/loop.json''"] r p
  have 4: "loadOptions cyclic_env ''/etc/loop.json'' = None" by simp
  from c demo_mergeChain 1 2 3 r p 4 show ?thesis by blast
qed

subsection \<open>The ordering of the documents\<close>

lemma sortSelector_spec_le:
  "sortSelector_spec p a b \<le> 0 \<longleftrightarrow> caseFold (p a) \<le> caseFold (p b)"
  by (auto simp: sortSelector_spec_def Let_def)

lemma insertBy_insort_key:
  "insertBy (sortSelector_spec p) x ys = insort_key (\<lambda>x. caseFold (p x)) x ys"
  by (induction ys) (simp_all add: sortSelector_spec_le)

lemma array_sort_sort_key:
  "array_sort (sortSelector_spec p) xs = sort_key (\<lambda>x. caseFold (p x)) xs"
proof -
  have "insertBy (sortSelector_spec p) = insort_key (\<lambda>x. caseFold (p x))"
    by (intro ext) (rule insertBy_insort_key)
  then show ?thesis by (simp add: array_sort_def sort_key_def)
qed

lemma tie_sort: "array_sort (sortSelector_spec doc_id) tie_docs = tie_sorted"
  by code_simp

lemma tie_sorted_keys: "sorted (map (\<lambda>x. caseFold (doc_id x)) tie_sorted)"
  by code_simp

lemma tie_cmp:
  "sortSelector_spec doc_id (tie_docs ! 1) (tie_docs ! 2) = 0"
  "sortSelector_spec doc_id (tie_docs ! 2) (tie_docs ! 0) = - 1"
  "sortSelector_spec doc_id (tie_docs ! 1) (tie_docs ! 0) = - 1"
  by code_simp+

text \<open>
  Claim C2. The comparator \<open>sortSelector(projection)\<close> orders by the case-folded
  projection: it is negative, zero or positive as the key of the first argument is
  below, equal to or above the key of the second, it is antisymmetric and transitive.
  Sorting with it gives a sequence whose keys ascend, leaves a sequence whose keys
  already ascend as it is (so sorting twice is sorting once), and keeps the elements of
  equal key in their original order.
\<close>

theorem sortSelector_total_idempotent_stable:
  "(sortSelector_spec p a b < 0 \<longleftrightarrow> caseFold (p a) < caseFold (p b)) \<and>
   (sortSelector_spec p a b = 0 \<longleftrightarrow> caseFold (p a) = caseFold (p b)) \<and>
   (0 < sortSelector_spec p a b \<longleftrightarrow> caseFold (p b) < caseFold (p a)) \<and>
   sortSelector_spec p a b = - sortSelector_spec p b a \<and>
   (sortSelector_spec p a b \<le> 0 \<and> sortSelector_spec p b c \<le> 0 \<longrightarrow>
      sortSelector_spec p a c \<le> 0) \<and>
   sorted (map (\<lambda>x. caseFold (p x)) (array_sort (sortSelector_spec p) xs)) \<and>
   (sorted (map (\<lambda>x. caseFold (p x)) xs) \<longrightarrow> array_sort (sortSelector_spec p) xs = xs) \<and>
   array_sort (sortSelector_spec p) (array_sort (sortSelector_spec p) xs)
     = array_sort (sortSelector_spec p) xs \<and>
   (\<forall>k. filter (\<lambda>x. caseFold (p x) = k) (array_sort (sortSelector_spec p) xs)
          = filter (\<lambda>x. caseFold (p x) = k) xs)"
proof -
  have cmp: "(sortSelector_spec p a b < 0 \<longleftrightarrow> caseFold (p a) < caseFold (p b)) \<and>
     (sortSelector_spec p a b = 0 \<longleftrightarrow> caseFold (p a) = caseFold (p b)) \<and>
     (0 < sortSelector_spec p a b \<longleftrightarrow> caseFold (p b) < caseFold (p a)) \<and>
     sortSelector_spec p a b = - sortSelector_spec p b a"
    by (auto simp: sortSelector_spec_def Let_def)
  have trans: "sortSelector_spec p a b \<le> 0 \<and> sortSelector_spec p b c \<le> 0 \<longrightarrow>
      sortSelector_spec p a c \<le> 0"
    by (auto simp: sortSelector_spec_le)
  have srt: "sorted (map (\<lambda>x. caseFold (p x)) (array_sort (sortSelector_spec p) xs))"
    by (simp add: array_sort_sort_key)
  have idem: "sorted (map (\<lambda>x. caseFold (p x)) ys) \<longrightarrow> array_sort (sortSelector_spec p) ys = ys"
    for ys
    by (simp add: array_sort_sort_key sort_key_id_if_sorted)
  have stable: "filter (\<lambda>x. caseFold (p x) = k) (array_sort (sortSelector_spec p) xs)
          = filter (\<lambda>x. caseFold (p x) = k) xs" for k
    by (simp add: array_sort_sort_key sort_key_stable)
  from cmp trans srt idem[of xs] idem[of "array_sort (sortSelector_spec p) xs"] stable
  show ?thesis by blast
qed

theorem sortSelector_total_idempotent_stable_witness:
  "sortSelector_spec doc_id (tie_docs ! 1) (tie_docs ! 2) \<le> 0 \<and>
   sortSelector_spec doc_id (tie_docs ! 2) (tie_docs ! 0) \<le> 0 \<and>
   sortSelector_spec doc_id (tie_docs ! 1) (tie_docs ! 0) \<le> 0 \<and>
   array_sort (sortSelector_spec doc_id) tie_docs = tie_sorted \<and>
   sorted (map (\<lambda>x. caseFold (doc_id x)) tie_sorted) \<and>
   array_sort (sortSelector_spec doc_id) tie_sorted = tie_sorted \<and>
   filter (\<lambda>x. caseFold (doc_id x) = ''a.ref'') tie_sorted
     = filter (\<lambda>x. caseFold (doc_id x) = ''a.ref'') tie_docs"
proof -
  note t = sortSelector_total_idempotent_stable
    [of doc_id "tie_docs ! 1" "tie_docs ! 2" "tie_docs ! 0" tie_docs]
  note u = sortSelector_total_idempotent_stable
    [of doc_id "tie_docs ! 1" "tie_docs ! 2" "tie_docs ! 0" tie_sorted]
  from t have "sortSelector_spec doc_id (tie_docs ! 1) (tie_docs ! 0) \<le> 0"
    using tie_cmp(1,2) by simp
  moreover from u tie_sorted_keys
  have "array_sort (sortSelector_spec doc_id) tie_sorted = tie_sorted" by blast
  moreover from t
  have "filter (\<lambda>x. caseFold (doc_id x) = ''a.ref'') tie_sorted
          = filter (\<lambda>x. caseFold (doc_id x) = ''a.ref'') tie_docs"
    by (simp add: tie_sort)
  ultimately show ?thesis using tie_cmp(1,2) tie_sort tie_sorted_keys by simp
qed

subsection \<open>A document that cannot be built\<close>

lemma buildDoc_ok:
  "toDoc env program (rootDir env) (srcDir env) api = Inr doc \<Longrightarrow>
   buildDoc env program api = Inr doc"
  by (simp add: buildDoc_def)

lemma buildDoc_throw:
  "toDoc env program (rootDir env) (srcDir env) api = Inl cause \<Longrightarrow>
   buildDoc env program api =
     Inl (newError env ''Error''
            (''Doc generation failed for API in '' @ source_fileName api @ '', ''
               @ stack cause))"
  by (simp add: buildDoc_def)

lemma mapDocs_first_failure:
  assumes "\<forall>a \<in> set pre. \<exists>doc. toDoc env program (rootDir env) (srcDir env) a = Inr doc"
    and "toDoc env program (rootDir env) (srcDir env) api = Inl cause"
  shows "mapDocs env program (pre @ api # post) =
           Inl (newError env ''Error''
                  (''Doc generation failed for API in '' @ source_fileName api @ '', ''
                     @ stack cause))"
  using assms(1)
proof (induction pre)
  case Nil
  show ?case by (simp add: buildDoc_throw[OF assms(2)])
next
  case (Cons a pre)
  then obtain doc where "toDoc env program (rootDir env) (srcDir env) a = Inr doc" by auto
  with Cons show ?case by (simp add: buildDoc_ok)
qed

lemma mapDocs_failure:
  assumes "api \<in> set apis" and "toDoc env program (rootDir env) (srcDir env) api = Inl cause"
  shows "\<exists>e. mapDocs env program apis = Inl e"
  using assms
proof (induction apis)
  case Nil
  then show ?case by simp
next
  case (Cons a apis)
  show ?case
  proof (cases "buildDoc env program a")
    case (Inl e)
    then show ?thesis by simp
  next
    case (Inr doc)
    then have "toDoc env program (rootDir env) (srcDir env) a = Inr doc"
      by (auto simp: buildDoc_def split: sum.splits)
    with Cons.prems have "api \<in> set apis" by auto
    from Cons.IH[OF this Cons.prems(2)] Inr show ?thesis by auto
  qed
qed


lemma main_build_failure:
  assumes "chdir env (rootDir env) = None"
    and "loadOptions env tsconfig = Some (Inr (Some merged))"
    and "locateApis env (theProgram env merged) = Inr apis"
    and "mapDocs env (theProgram env merged) apis = Inl e"
  shows "main env =
           Some ([Chdir (rootDir env), CreateProgram [entrypoint env] (programOptions merged)],
                 Inl e)"
  using assms(3,4) by (simp add: main_loaded[OF assms(1,2)] generate_def)

lemma main_built:
  assumes "chdir env (rootDir env) = None"
    and "loadOptions env tsconfig = Some (Inr (Some merged))"
    and "locateApis env (theProgram env merged) = Inr apis"
    and "mapDocs env (theProgram env merged) apis = Inr docs"
  shows "main env =
           Some (Chdir (rootDir env) # CreateProgram [entrypoint env] (programOptions merged)
                   # fst (emitDocs env (array_sort (sortSelector env doc_id) docs)),
                 snd (emitDocs env (array_sort (sortSelector env doc_id) docs)))"
  using assms(3,4) by (simp add: main_loaded[OF assms(1,2)] generate_def)

lemma run_rejected:
  "main env = Some (evs, Inl e) \<Longrightarrow>
   run env = Some (evs @ [ConsoleError (stackOrError e), Exit 1], 1)"
  by (simp add: run_def)


lemma failing_toDoc_apiA:
  "toDoc failing_env program (rootDir failing_env) (srcDir failing_env) demo_apiA = Inl demo_cause"
  by (simp add: failing_fields failing_toDoc_def demo_apiA_def)

lemma failing_toDoc_apiB:
  "toDoc failing_env program (rootDir failing_env) (srcDir failing_env) demo_apiB = Inr demo_docB"
  by (simp add: failing_fields failing_toDoc_def demo_apiB_def)

lemma failing_mapDocs: "mapDocs failing_env () demo_apis = Inl demo_wrapped"
  by code_simp

lemma failing_main: "main failing_env = Some (demo_start, Inl demo_wrapped)"
  using main_build_failure[OF failing_fields(5) failing_loadOptions failing_locateApis,
      of demo_wrapped]
  by (simp add: failing_mapDocs failing_paths demo_start_def)

text \<open>
  Claim C1. In a run in which \<open>toDoc\<close> throws for one of the discovered calls,
  \<open>main\<close> rejects and the trace of the whole process has no event that writes: no
  directory is made, no markdown file and no manifest is written.
\<close>

theorem no_output_when_toDoc_throws:
  assumes "chdir env (rootDir env) = None"
    and "loadOptions env tsconfig = Some (Inr (Some merged))"
    and "locateApis env (theProgram env merged) = Inr apis"
    and "api \<in> set apis"
    and "toDoc env (theProgram env merged) (rootDir env) (srcDir env) api = Inl cause"
  shows "\<exists>evs e. main env = Some (evs, Inl e) \<and>
           run env = Some (evs @ [ConsoleError (stackOrError e), Exit 1], 1) \<and>
           (\<forall>ev \<in> set (evs @ [ConsoleError (stackOrError e), Exit 1]). \<not> isOutput ev)"
proof -
  from mapDocs_failure[OF assms(4,5)] obtain e where
    "mapDocs env (theProgram env merged) apis = Inl e" by blast
  from main_build_failure[OF assms(1-3) this]
  have m: "main env =
     Some ([Chdir (rootDir env), CreateProgram [entrypoint env] (programOptions merged)], Inl e)" .
  from run_rejected[OF m] m show ?thesis by simp
qed

theorem no_output_when_toDoc_throws_witness:
  "chdir failing_env (rootDir failing_env) = None \<and>
   loadOptions failing_env tsconfig = Some (Inr (Some demo_merged)) \<and>
   locateApis failing_env (theProgram failing_env demo_merged) = Inr demo_apis \<and>
   demo_apiA \<in> set demo_apis \<and>
   toDoc failing_env (theProgram failing_env demo_merged) (rootDir failing_env)
     (srcDir failing_env) demo_apiA = Inl demo_cause \<and>
   main failing_env = Some (demo_start, Inl demo_wrapped) \<and>
   run failing_env = Some (demo_start @ demo_console, 1) \<and>
   filter isOutput (demo_start @ demo_console) = []"
proof -
  have a: "demo_apiA \<in> set demo_apis" by (simp add: demo_apis_def)
  from no_output_when_toDoc_throws
    [OF failing_fields(5) failing_loadOptions failing_locateApis a failing_toDoc_apiA]
  obtain evs e where m: "main failing_env = Some (evs, Inl e)"
    and r: "run failing_env = Some (evs @ [ConsoleError (stackOrError e), Exit 1], 1)"
    and o: "\<forall>ev \<in> set (evs @ [ConsoleError (stackOrError e), Exit 1]). \<not> isOutput ev"
    by blast
  from m have e: "evs = demo_start" "e = demo_wrapped" by (simp_all add: failing_main)
  have c: "[ConsoleError (stackOrError demo_wrapped), Exit 1] = demo_console"
    by (simp add: demo_console_def stackOrError_def demo_wrapped_def)
  from r e c have r': "run failing_env = Some (demo_start @ demo_console, 1)" by simp
  from o have "filter isOutput (evs @ [ConsoleError (stackOrError e), Exit 1]) = []"
    by (simp only: filter_empty_conv)
  then have "filter isOutput (demo_start @ demo_console) = []"
    by (simp only: e c)
  with failing_fields(5) failing_loadOptions failing_locateApis a failing_toDoc_apiA
    failing_main r'
  show ?thesis by blast
qed

text \<open>
  Claim C4. When \<open>toDoc\<close> throws for a discovered call and has returned for the calls
  before it, the map stops there: \<open>main\<close> rejects with a new Error whose message is
  \<open>Doc generation failed for API in\<close>, the file name of the call's source, a comma and
  the stack of the value that was thrown; the trace ends with the program creation, so
  no document is sorted, printed or written.
\<close>

theorem toDoc_failure_is_wrapped:
  assumes "chdir env (rootDir env) = None"
    and "loadOptions env tsconfig = Some (Inr (Some merged))"
    and "locateApis env (theProgram env merged) = Inr (pre @ api # post)"
    and "\<forall>a \<in> set pre.
           \<exists>doc. toDoc env (theProgram env merged) (rootDir env) (srcDir env) a = Inr doc"
    and "toDoc env (theProgram env merged) (rootDir env) (srcDir env) api = Inl cause"
  shows "\<exists>msg. msg = ''Doc generation failed for API in '' @ source_fileName api @ '', ''
                       @ stack cause \<and>
           mapDocs env (theProgram env merged) (pre @ api # post)
             = Inl (Thrown msg (''Error: '' @ msg @ stackFrames env)) \<and>
           main env =
             Some ([Chdir (rootDir env), CreateProgram [entrypoint env] (programOptions merged)],
                   Inl (Thrown msg (''Error: '' @ msg @ stackFrames env)))"
proof -
  from mapDocs_first_failure[OF assms(4,5)]
  have f: "mapDocs env (theProgram env merged) (pre @ api # post) =
           Inl (newError env ''Error''
                  (''Doc generation failed for API in '' @ source_fileName api @ '', ''
                     @ stack cause))" .
  from main_build_failure[OF assms(1-3) f] f show ?thesis
    by (simp add: newError_def)
qed

theorem toDoc_failure_is_wrapped_witness:
  "chdir failing_env (rootDir failing_env) = None \<and>
   loadOptions failing_env tsconfig = Some (Inr (Some demo_merged)) \<and>
   locateApis failing_env (theProgram failing_env demo_merged) = Inr ([demo_apiB] @ demo_apiA # []) \<and>
   toDoc failing_env (theProgram failing_env demo_merged) (rootDir failing_env)
     (srcDir failing_env) demo_apiB = Inr demo_docB \<and>
   toDoc failing_env (theProgram failing_env demo_merged) (rootDir failing_env)
     (srcDir failing_env) demo_apiA = Inl demo_cause \<and>
   source_fileName demo_apiA = ''/repo/packages/core-api/src/a.ts'' \<and>
   stack demo_cause = ''Error: unresolved type'' \<and>
   main failing_env = Some (demo_start, Inl demo_wrapped)"
proof -
  have l: "locateApis failing_env (theProgram failing_env demo_merged)
             = Inr ([demo_apiB] @ demo_apiA # [])"
    by (simp add: failing_locateApis demo_apis_def)
  have p: "\<forall>a \<in> set [demo_apiB].
      \<exists>doc. toDoc failing_env (theProgram failing_env demo_merged) (rootDir failing_env)
              (srcDir failing_env) a = Inr doc"
    by (simp add: failing_toDoc_apiB)
  from toDoc_failure_is_wrapped
    [OF failing_fields(5) failing_loadOptions l p failing_toDoc_apiA]
  have "main failing_env = Some (demo_start, Inl demo_wrapped)"
    by (simp add: failing_paths failing_fields demo_start_def demo_wrapped_def demo_apiA_def
        demo_cause_def)
  moreover have "source_fileName demo_apiA = ''/repo/packages/core-api/src/a.ts''"
    and "stack demo_cause = ''Error: unresolved type''"
    by (simp_all add: demo_apiA_def demo_cause_def)
  ultimately show ?thesis
    using failing_fields(5) failing_loadOptions l failing_toDoc_apiB failing_toDoc_apiA
    by blast
qed

subsection \<open>The exit status\<close>





subsection \<open>What is written\<close>

lemma writeDocs_events:
  "writeDocs env docs = (evs, Inr outcomes) \<Longrightarrow>
   list_all2 (\<lambda>ev d. \<exists>data. print env d = Inr data \<and> ev = WriteFile (artifactPath env d) data)
     evs docs"
proof (induction docs arbitrary: evs outcomes)
  case Nil
  then show ?case by simp
next
  case (Cons d docs)
  then show ?case
    by (auto split: sum.splits prod.splits)
qed

lemma filter_isWriteFile_writeDocs:
  "writeDocs env docs = (evs, r) \<Longrightarrow> filter isWriteFile evs = evs"
  by (rule filter_True) (auto dest: isWriteFile_writeDocs)

lemma emitDocs_resolved:
  assumes "emitDocs env docs = (evs, Inr u)"
  shows "\<exists>ws. evs = EnsureDirSync (resolve (rootDir env) [apiRefsDir env, ''docs'']) # ws
                  @ [WriteFileSync (mkdocsYaml env) (manifest docs)] \<and>
           filter isWriteFile ws = ws \<and>
           list_all2 (\<lambda>ev d. \<exists>data. print env d = Inr data \<and>
                        ev = WriteFile (artifactPath env d) data) ws docs"
  using assms
  by (auto simp: emitDocs_def Let_def split: option.splits sum.splits prod.splits
      dest: writeDocs_events filter_isWriteFile_writeDocs)

lemma emitDocs_manifest:
  assumes "WriteFileSync file data \<in> set (fst (emitDocs env docs))"
  shows "file = mkdocsYaml env \<and> data = manifest docs"
  using assms
  by (auto simp: emitDocs_def Let_def split: option.splits sum.splits prod.splits
      dest: isWriteFile_writeDocs)

lemma splitOn_nonempty: "splitOn sep s \<noteq> []"
  by (induction s) (auto split: list.splits)

lemma splitOn_no_sep: "sep \<notin> set s \<Longrightarrow> splitOn sep s = [s]"
  by (induction s) auto

lemma splitOn_append:
  "splitOn sep (xs @ sep # ys) = splitOn sep xs @ splitOn sep ys"
  by (induction xs) (auto split: list.splits simp: splitOn_nonempty)

lemma joinWith_snoc: "ss \<noteq> [] \<Longrightarrow> joinWith sep (ss @ [t]) = joinWith sep ss @ sep @ t"
  by (induction sep ss rule: joinWith.induct) auto

lemma joinWith_snoc_nonempty: "t \<noteq> [] \<Longrightarrow> joinWith sep (ss @ [t]) \<noteq> []"
  using joinWith_snoc[of ss sep t] by (cases "ss = []") auto

lemma normalizeStep_plain:
  "seg \<noteq> [] \<Longrightarrow> seg \<noteq> ''.'' \<Longrightarrow> seg \<noteq> ''..'' \<Longrightarrow> normalizeStep allow res seg = res @ [seg]"
  by (simp add: normalizeStep_def)

lemma normalizeString_two:
  assumes "CHR ''/'' \<notin> set f" "f \<noteq> []" "f \<noteq> ''.''" "f \<noteq> ''..''"
    and "CHR ''/'' \<notin> set g" "g \<noteq> []" "g \<noteq> ''.''" "g \<noteq> ''..''"
  shows "normalizeString (X @ ''/'' @ g @ ''/'' @ f) allow = normalizeString (X @ ''/'' @ g) allow @ ''/'' @ f"
    and "normalizeString (X @ ''/'' @ g) allow \<noteq> []"
    and "normalizeString (g @ ''/'' @ f) allow = g @ ''/'' @ f"
    and "normalizeString g allow = g"
proof -
  let ?S = "foldl (normalizeStep allow) [] (splitOn CHR ''/'' X)"
  have 1: "splitOn CHR ''/'' (X @ CHR ''/'' # g) = splitOn CHR ''/'' X @ [g]"
    using assms by (simp add: splitOn_append splitOn_no_sep)
  have 2: "splitOn CHR ''/'' (X @ CHR ''/'' # g @ CHR ''/'' # f) = splitOn CHR ''/'' X @ [g, f]"
    using assms by (simp add: splitOn_append splitOn_no_sep)
  have g: "normalizeString (X @ ''/'' @ g) allow = joinWith ''/'' (?S @ [g])"
    by (simp add: normalizeString_def 1 normalizeStep_plain assms)
  have f: "normalizeString (X @ ''/'' @ g @ ''/'' @ f) allow = joinWith ''/'' ((?S @ [g]) @ [f])"
    by (simp add: normalizeString_def 2 normalizeStep_plain assms)
  show "normalizeString (X @ ''/'' @ g @ ''/'' @ f) allow = normalizeString (X @ ''/'' @ g) allow @ ''/'' @ f"
    unfolding f g by (rule joinWith_snoc) simp
  show "normalizeString (X @ ''/'' @ g) allow \<noteq> []"
    unfolding g using assms(6) by (rule joinWith_snoc_nonempty)
  show "normalizeString (g @ ''/'' @ f) allow = g @ ''/'' @ f"
    using splitOn_append[of "CHR ''/''" g f] assms
    by (simp add: normalizeString_def splitOn_no_sep normalizeStep_plain)
  show "normalizeString g allow = g"
    using assms by (simp add: normalizeString_def splitOn_no_sep normalizeStep_plain)
qed

lemma join_docs_file:
  assumes "CHR ''/'' \<notin> set f" "f \<noteq> []" "f \<noteq> ''.''" "f \<noteq> ''..''" "last f \<noteq> CHR ''/''"
  shows "join [A, ''docs'', f] = join [A, ''docs''] @ ''/'' @ f"
proof (cases "A = []")
  case True
  have d: "CHR ''/'' \<notin> set ''docs''" "''docs'' \<noteq> []" "''docs'' \<noteq> ''.''" "''docs'' \<noteq> ''..''" by simp_all
  note n = normalizeString_two(3,4)[OF assms(1-4) d]
  show ?thesis using True assms n[of True]
    by (simp add: join_def normalize_def isAbsolute_def)
next
  case False
  have d: "CHR ''/'' \<notin> set ''docs''" "''docs'' \<noteq> []" "''docs'' \<noteq> ''.''" "''docs'' \<noteq> ''..''" by simp_all
  note n = normalizeString_two(1,2)[OF assms(1-4) d, of A]
  have abs: "isAbsolute (A @ ''/docs/'' @ f) = isAbsolute A" "isAbsolute (A @ ''/docs'') = isAbsolute A"
    using False by (cases A; simp add: isAbsolute_def)+
  show ?thesis using False assms n[of "\<not> isAbsolute A"] abs
    by (auto simp add: join_def normalize_def Let_def)
qed

lemma artifactPath_plain:
  assumes "CHR ''/'' \<notin> set (doc_name d)"
  shows "artifactPath env d = join [apiRefsDir env, ''docs''] @ ''/'' @ doc_name d @ ''.md''"
  unfolding artifactPath_def
  by (rule join_docs_file) (use assms in \<open>auto simp: append_eq_Cons_conv\<close>)


lemma demo_theProgram_mapDocs:
  "mapDocs demo_env (theProgram demo_env demo_merged) demo_apis = Inr [demo_docB, demo_docA]"
  using demo_mapDocs by simp

text \<open>
  Claim C3. In a run in which every document is built, a manifest that is written goes
  to \<open>mkdocs.yml\<close> and is the lines \<open>site_name: api-references\<close> and \<open>nav:\<close>
  followed by one line per document of the sorted set, in that order, each line giving
  the identifier and the file name \<open>name.md\<close>; when \<open>main\<close> resolves it is the last
  thing written. With the ordering selector of the specification the identifiers ascend
  after case folding, and two documents \<open>a.ref\<close> and \<open>b.ref\<close> are listed in this order
  whichever was discovered first.
\<close>

theorem manifest_content_and_order:
  assumes "chdir env (rootDir env) = None"
    and "loadOptions env tsconfig = Some (Inr (Some merged))"
    and "locateApis env (theProgram env merged) = Inr apis"
    and "mapDocs env (theProgram env merged) apis = Inr docs"
    and "main env = Some (evs, r)"
  shows "(\<forall>file data. WriteFileSync file data \<in> set evs \<longrightarrow>
            file = mkdocsYaml env \<and>
            data = joinWith [CHR 0x0A]
                     (''site_name: api-references'' # ''nav:'' #
                      map (\<lambda>d. ''  - '' @ doc_id d @ '': '' @ [CHR 0x27] @ doc_name d @ ''.md''
                                  @ [CHR 0x27])
                        (array_sort (sortSelector env doc_id) docs))) \<and>
         (r = Inr () \<longrightarrow>
            evs \<noteq> [] \<and>
            last evs = WriteFileSync (mkdocsYaml env)
                         (manifest (array_sort (sortSelector env doc_id) docs))) \<and>
         (sortSelector env = sortSelector_spec \<longrightarrow>
            sorted (map (\<lambda>d. caseFold (doc_id d)) (array_sort (sortSelector env doc_id) docs)) \<and>
            (\<forall>a b. doc_id a = ''a.ref'' \<and> doc_id b = ''b.ref'' \<and> (docs = [a, b] \<or> docs = [b, a]) \<longrightarrow>
               array_sort (sortSelector env doc_id) docs = [a, b]))"
proof -
  let ?sorted = "array_sort (sortSelector env doc_id) docs"
  from main_built[OF assms(1-4)] assms(5)
  have evs: "evs = Chdir (rootDir env) # CreateProgram [entrypoint env] (programOptions merged)
                     # fst (emitDocs env ?sorted)"
    and r: "r = snd (emitDocs env ?sorted)"
    by simp_all
  have 1: "\<forall>file data. WriteFileSync file data \<in> set evs \<longrightarrow>
            file = mkdocsYaml env \<and>
            data = joinWith [CHR 0x0A]
                     (''site_name: api-references'' # ''nav:'' #
                      map (\<lambda>d. ''  - '' @ doc_id d @ '': '' @ [CHR 0x27] @ doc_name d @ ''.md''
                                  @ [CHR 0x27]) ?sorted)"
  proof (intro allI impI)
    fix target data assume "WriteFileSync target data \<in> set evs"
    with evs have "WriteFileSync target data \<in> set (fst (emitDocs env ?sorted))" by simp
    from emitDocs_manifest[OF this]
    show "target = mkdocsYaml env \<and>
            data = joinWith [CHR 0x0A]
                     (''site_name: api-references'' # ''nav:'' #
                      map (\<lambda>d. ''  - '' @ doc_id d @ '': '' @ [CHR 0x27] @ doc_name d @ ''.md''
                                  @ [CHR 0x27]) ?sorted)"
      by (simp add: manifest_def navEntry_def[abs_def])
  qed
  have 2: "r = Inr () \<longrightarrow> evs \<noteq> [] \<and> last evs = WriteFileSync (mkdocsYaml env) (manifest ?sorted)"
  proof
    assume "r = Inr ()"
    with r have "emitDocs env ?sorted = (fst (emitDocs env ?sorted), Inr ())"
      by (simp add: prod_eq_iff)
    from emitDocs_resolved[OF this] evs
    show "evs \<noteq> [] \<and> last evs = WriteFileSync (mkdocsYaml env) (manifest ?sorted)"
      by auto
  qed
  have 3: "sortSelector env = sortSelector_spec \<longrightarrow>
            sorted (map (\<lambda>d. caseFold (doc_id d)) ?sorted) \<and>
            (\<forall>a b. doc_id a = ''a.ref'' \<and> doc_id b = ''b.ref'' \<and> (docs = [a, b] \<or> docs = [b, a]) \<longrightarrow>
               ?sorted = [a, b])"
  proof (intro impI conjI allI)
    assume s: "sortSelector env = sortSelector_spec"
    show "sorted (map (\<lambda>d. caseFold (doc_id d)) ?sorted)"
      by (simp add: s array_sort_sort_key)
    fix a b
    assume ab: "doc_id a = ''a.ref'' \<and> doc_id b = ''b.ref'' \<and> (docs = [a, b] \<or> docs = [b, a])"
    have lt: "caseFold ''a.ref'' < caseFold ''b.ref''" by code_simp
    with ab have "sortSelector_spec doc_id a b \<le> 0" "\<not> sortSelector_spec doc_id b a \<le> 0"
      by (simp_all add: sortSelector_spec_le not_le)
    with ab show "?sorted = [a, b]"
      by (auto simp: s array_sort_def)
  qed
  from 1 2 3 show ?thesis by blast
qed

theorem manifest_content_and_order_witness:
  "chdir demo_env (rootDir demo_env) = None \<and>
   loadOptions demo_env tsconfig = Some (Inr (Some demo_merged)) \<and>
   locateApis demo_env (theProgram demo_env demo_merged) = Inr demo_apis \<and>
   mapDocs demo_env (theProgram demo_env demo_merged) demo_apis = Inr [demo_docB, demo_docA] \<and>
   main demo_env = Some (demo_start @ demo_outputs, Inr ()) \<and>
   sortSelector demo_env = sortSelector_spec \<and>
   doc_id demo_docA = ''a.ref'' \<and> doc_id demo_docB = ''b.ref'' \<and>
   array_sort (sortSelector demo_env doc_id) [demo_docB, demo_docA] = [demo_docA, demo_docB] \<and>
   last (demo_start @ demo_outputs)
     = WriteFileSync ''/repo/packages/docgen/dist/mkdocs.yml'' demo_manifest"
proof -
  note t = manifest_content_and_order
    [OF demo_fields(5) demo_loadOptions demo_locateApis demo_theProgram_mapDocs demo_main]
  have i: "doc_id demo_docA = ''a.ref''" "doc_id demo_docB = ''b.ref''"
    by (simp_all add: demo_docA_def demo_docB_def)
  from t demo_fields(10) i
  have o: "array_sort (sortSelector demo_env doc_id) [demo_docB, demo_docA]
             = [demo_docA, demo_docB]"
    by blast
  from t have "last (demo_start @ demo_outputs)
     = WriteFileSync (mkdocsYaml demo_env)
         (manifest (array_sort (sortSelector demo_env doc_id) [demo_docB, demo_docA]))"
    by blast
  then have "last (demo_start @ demo_outputs)
     = WriteFileSync ''/repo/packages/docgen/dist/mkdocs.yml'' demo_manifest"
    by (simp only: o demo_paths demo_manifest_eq)
  with demo_fields(5) demo_loadOptions demo_locateApis demo_theProgram_mapDocs demo_main
    demo_fields(10) i o
  show ?thesis by blast
qed

lemma set_insertBy: "set (insertBy cmp x ys) = insert x (set ys)"
  by (induction ys) auto

lemma set_array_sort: "set (array_sort cmp xs) = set xs"
  by (induction xs) (simp_all add: array_sort_def set_insertBy)

lemma writeDocs_outcomes:
  "writeDocs env docs = (evs, Inr outcomes) \<Longrightarrow> d \<in> set docs \<Longrightarrow> print env d = Inr data \<Longrightarrow>
   writeFile env (artifactPath env d) data \<in> set outcomes"
proof (induction docs arbitrary: evs outcomes)
  case Nil
  then show ?case by simp
next
  case (Cons d' docs)
  then show ?case
    by (auto split: sum.splits prod.splits)
qed

lemma firstRejection_None: "firstRejection outcomes = None \<Longrightarrow> outcome \<in> set outcomes \<Longrightarrow> outcome = None"
  by (induction outcomes rule: firstRejection.induct) auto

lemma writeDocs_prints:
  "\<forall>d \<in> set docs. \<exists>data. print env d = Inr data \<Longrightarrow> \<exists>evs outcomes. writeDocs env docs = (evs, Inr outcomes)"
proof (induction docs)
  case Nil
  then show ?case by simp
next
  case (Cons d docs)
  then obtain data evs outcomes where "print env d = Inr data" "writeDocs env docs = (evs, Inr outcomes)"
    by auto
  then show ?case by simp
qed

lemma emitDocs_writes:
  assumes "ensureDirSync env (resolve (rootDir env) [apiRefsDir env, ''docs'']) = None"
    and "\<forall>d \<in> set docs. \<exists>data. print env d = Inr data"
  shows "list_all2 (\<lambda>ev d. \<exists>data. print env d = Inr data \<and> ev = WriteFile (artifactPath env d) data)
           (filter isWriteFile (fst (emitDocs env docs))) docs"
proof -
  from writeDocs_prints[OF assms(2)] obtain evs outcomes where
    w: "writeDocs env docs = (evs, Inr outcomes)" by blast
  have f: "filter isWriteFile evs = evs" by (rule filter_isWriteFile_writeDocs[OF w])
  have "filter isWriteFile (fst (emitDocs env docs)) = evs"
    using assms(1) w f by (auto simp: emitDocs_def Let_def split: option.splits)
  with writeDocs_events[OF w] show ?thesis by simp
qed

lemma emitDocs_resolved_outcomes:
  assumes "emitDocs env docs = (evs, Inr u)" and "d \<in> set docs" and "print env d = Inr data"
  shows "writeFile env (artifactPath env d) data = None"
proof -
  from assms(1) obtain ws outcomes where w: "writeDocs env docs = (ws, Inr outcomes)"
    and n: "firstRejection outcomes = None"
    by (auto simp: emitDocs_def Let_def split: option.splits sum.splits prod.splits)
  from writeDocs_outcomes[OF w assms(2,3)] firstRejection_None[OF n] show ?thesis by auto
qed

text \<open>
  Claim C7. In a run in which every document is built, the docs directory is made and
  every document prints, the writes are one per document of the sorted set, in its
  order, each with the printed text of the document and, the name of a document being
  an identifier and so free of path separators, to the docs directory, a separator,
  the name and \<open>.md\<close>; when \<open>main\<close> resolves each of these writes has succeeded. Two
  documents of the set have the same path exactly when they have the same name.
\<close>

theorem one_artifact_per_document:
  assumes "chdir env (rootDir env) = None"
    and "loadOptions env tsconfig = Some (Inr (Some merged))"
    and "locateApis env (theProgram env merged) = Inr apis"
    and "mapDocs env (theProgram env merged) apis = Inr docs"
    and "ensureDirSync env (resolve (rootDir env) [apiRefsDir env, ''docs'']) = None"
    and "\<forall>d \<in> set docs. \<exists>data. print env d = Inr data"
    and "\<forall>d \<in> set docs. CHR ''/'' \<notin> set (doc_name d)"
    and "main env = Some (evs, r)"
  shows "list_all2
           (\<lambda>ev d. \<exists>data. print env d = Inr data \<and>
              ev = WriteFile (join [apiRefsDir env, ''docs''] @ ''/'' @ doc_name d @ ''.md'') data)
           (filter isWriteFile evs) (array_sort (sortSelector env doc_id) docs) \<and>
         (r = Inr () \<longrightarrow>
            (\<forall>d \<in> set docs. \<forall>data. print env d = Inr data \<longrightarrow>
               writeFile env (join [apiRefsDir env, ''docs''] @ ''/'' @ doc_name d @ ''.md'') data
                 = None)) \<and>
         (\<forall>d \<in> set docs. \<forall>d' \<in> set docs.
            (artifactPath env d = artifactPath env d' \<longleftrightarrow> doc_name d = doc_name d')) \<and>
         (\<forall>d. CHR ''/'' \<notin> set (doc_name d) \<longrightarrow>
            artifactPath env d = join [apiRefsDir env, ''docs''] @ ''/'' @ doc_name d @ ''.md'') \<and>
         (\<forall>d d'. CHR ''/'' \<notin> set (doc_name d) \<and> CHR ''/'' \<notin> set (doc_name d') \<longrightarrow>
            (artifactPath env d = artifactPath env d' \<longleftrightarrow> doc_name d = doc_name d'))"
proof -
  let ?sorted = "array_sort (sortSelector env doc_id) docs"
  let ?path = "\<lambda>d. join [apiRefsDir env, ''docs''] @ ''/'' @ doc_name d @ ''.md''"
  have s: "set ?sorted = set docs" by (rule set_array_sort)
  from main_built[OF assms(1-4)] assms(8)
  have evs: "evs = Chdir (rootDir env) # CreateProgram [entrypoint env] (programOptions merged)
                     # fst (emitDocs env ?sorted)"
    and r: "r = snd (emitDocs env ?sorted)"
    by simp_all
  have p: "artifactPath env d = ?path d" if "d \<in> set docs" for d
    using that assms(7) by (simp add: artifactPath_plain)
  from assms(6) s have "\<forall>d \<in> set ?sorted. \<exists>data. print env d = Inr data" by simp
  from emitDocs_writes[OF assms(5) this] evs
  have "list_all2 (\<lambda>ev d. \<exists>data. print env d = Inr data \<and> ev = WriteFile (artifactPath env d) data)
          (filter isWriteFile evs) ?sorted"
    by simp
  then have 1: "list_all2 (\<lambda>ev d. \<exists>data. print env d = Inr data \<and> ev = WriteFile (?path d) data)
          (filter isWriteFile evs) ?sorted"
    by (rule list.rel_mono_strong) (use p s in auto)
  have 2: "r = Inr () \<longrightarrow>
            (\<forall>d \<in> set docs. \<forall>data. print env d = Inr data \<longrightarrow> writeFile env (?path d) data = None)"
  proof (intro impI ballI allI)
    fix d data
    assume "r = Inr ()" and d: "d \<in> set docs" and pr: "print env d = Inr data"
    with r have "emitDocs env ?sorted = (fst (emitDocs env ?sorted), Inr ())"
      by (simp add: prod_eq_iff)
    from emitDocs_resolved_outcomes[OF this _ pr] d s p[OF d]
    show "writeFile env (?path d) data = None" by simp
  qed
  have 3: "\<forall>d \<in> set docs. \<forall>d' \<in> set docs.
            (artifactPath env d = artifactPath env d' \<longleftrightarrow> doc_name d = doc_name d')"
    by (simp add: p)
  have 4: "\<forall>d. CHR ''/'' \<notin> set (doc_name d) \<longrightarrow> artifactPath env d = ?path d"
    by (simp add: artifactPath_plain)
  have 5: "\<forall>d d'. CHR ''/'' \<notin> set (doc_name d) \<and> CHR ''/'' \<notin> set (doc_name d') \<longrightarrow>
            (artifactPath env d = artifactPath env d' \<longleftrightarrow> doc_name d = doc_name d')"
    by (simp add: artifactPath_plain)
  from 1 2 3 4 5 show ?thesis by blast
qed

theorem one_artifact_per_document_witness:
  "chdir demo_env (rootDir demo_env) = None \<and>
   loadOptions demo_env tsconfig = Some (Inr (Some demo_merged)) \<and>
   locateApis demo_env (theProgram demo_env demo_merged) = Inr demo_apis \<and>
   mapDocs demo_env (theProgram demo_env demo_merged) demo_apis = Inr [demo_docB, demo_docA] \<and>
   ensureDirSync demo_env (resolve (rootDir demo_env) [apiRefsDir demo_env, ''docs'']) = None \<and>
   print demo_env demo_docA = Inr ''# aApiRef'' \<and>
   print demo_env demo_docB = Inr ''# bApiRef'' \<and>
   CHR ''/'' \<notin> set (doc_name demo_docA) \<and> CHR ''/'' \<notin> set (doc_name demo_docB) \<and>
   main demo_env = Some (demo_start @ demo_outputs, Inr ()) \<and>
   filter isWriteFile (demo_start @ demo_outputs)
     = [WriteFile ''/repo/packages/docgen/dist/docs/aApiRef.md'' ''# aApiRef'',
        WriteFile ''/repo/packages/docgen/dist/docs/bApiRef.md'' ''# bApiRef''] \<and>
   length (filter isWriteFile (demo_start @ demo_outputs)) = length [demo_docB, demo_docA] \<and>
   join [apiRefsDir demo_env, ''docs''] @ ''/'' @ doc_name demo_docA @ ''.md''
     = ''/repo/packages/docgen/dist/docs/aApiRef.md'' \<and>
   writeFile demo_env (join [apiRefsDir demo_env, ''docs''] @ ''/'' @ doc_name demo_docA @ ''.md'')
     ''# aApiRef'' = None \<and>
   artifactPath demo_env demo_docA \<noteq> artifactPath demo_env demo_docB"
proof -
  have pr: "print demo_env demo_docA = Inr ''# aApiRef''"
    "print demo_env demo_docB = Inr ''# bApiRef''"
    by (simp_all add: demo_fields demo_docA_def demo_docB_def)
  have n: "CHR ''/'' \<notin> set (doc_name demo_docA)" "CHR ''/'' \<notin> set (doc_name demo_docB)"
    "doc_name demo_docA \<noteq> doc_name demo_docB"
    by (simp_all add: demo_docA_def demo_docB_def)
  have h6: "\<forall>d \<in> set [demo_docB, demo_docA]. \<exists>data. print demo_env d = Inr data"
    by (simp add: pr)
  have h7: "\<forall>d \<in> set [demo_docB, demo_docA]. CHR ''/'' \<notin> set (doc_name d)"
    by (simp add: n)
  note t = one_artifact_per_document
    [OF demo_fields(5) demo_loadOptions demo_locateApis demo_theProgram_mapDocs
        demo_fields(7) h6 h7 demo_main]
  from t have "length (filter isWriteFile (demo_start @ demo_outputs))
                 = length (array_sort (sortSelector demo_env doc_id) [demo_docB, demo_docA])"
    by (blast dest: list_all2_lengthD)
  then have 1: "length (filter isWriteFile (demo_start @ demo_outputs))
                  = length [demo_docB, demo_docA]"
    by (simp only: demo_sort) simp
  from t pr(1)
  have 2: "writeFile demo_env
             (join [apiRefsDir demo_env, ''docs''] @ ''/'' @ doc_name demo_docA @ ''.md'')
             ''# aApiRef'' = None"
    by simp
  from t have "artifactPath demo_env demo_docA = artifactPath demo_env demo_docB
                 \<longleftrightarrow> doc_name demo_docA = doc_name demo_docB"
    by simp
  with n(3) have 3: "artifactPath demo_env demo_docA \<noteq> artifactPath demo_env demo_docB"
    by simp
  from t n(1) have "artifactPath demo_env demo_docA
      = join [apiRefsDir demo_env, ''docs''] @ ''/'' @ doc_name demo_docA @ ''.md''"
    by blast
  then have 4: "join [apiRefsDir demo_env, ''docs''] @ ''/'' @ doc_name demo_docA @ ''.md''
      = ''/repo/packages/docgen/dist/docs/aApiRef.md''"
    by (simp only: demo_artifactPath)
  have 5: "filter isWriteFile (demo_start @ demo_outputs)
     = [WriteFile ''/repo/packages/docgen/dist/docs/aApiRef.md'' ''# aApiRef'',
        WriteFile ''/repo/packages/docgen/dist/docs/bApiRef.md'' ''# bApiRef'']"
    by (simp add: demo_start_def demo_outputs_def)
  from 1 2 3 4 5 pr n(1,2) demo_fields(5) demo_loadOptions demo_locateApis
    demo_theProgram_mapDocs demo_fields(7) demo_main
  show ?thesis by blast
qed

end
